theory Spec2Isabelle
  imports Complex_Main "HOL-Library.Char_ord" "HOL-Library.List_Lexorder" "HOL-Library.AList"
begin

section \<open>Values\<close>

text \<open>
  The panels of \<^verbatim>\<open>dataservice.py\<close> hold numpy floats. A float cell is modelled by its
  value: a finite number (an exact real, rounding is not modelled, and the two signed zeros
  are one value), the two infinities, or NaN, which pandas reads as "unfilled".
\<close>

datatype pyfloat = Fin real | PInf | NInf | NaN

fun isnan :: "pyfloat \<Rightarrow> bool" where
  "isnan NaN = True"
| "isnan _ = False"

text \<open>Comparison of floats: every comparison with NaN is false.\<close>

fun float_lt :: "pyfloat \<Rightarrow> pyfloat \<Rightarrow> bool" where
  "float_lt NaN _ = False"
| "float_lt _ NaN = False"
| "float_lt (Fin a) (Fin b) = (a < b)"
| "float_lt (Fin a) PInf = True"
| "float_lt NInf (Fin b) = True"
| "float_lt NInf PInf = True"
| "float_lt _ _ = False"

text \<open>
  Division of floats as numpy does it (no exception): a finite non-zero number over zero is
  an infinity, zero over zero is NaN, anything with NaN is NaN.
\<close>

fun float_div :: "pyfloat \<Rightarrow> pyfloat \<Rightarrow> pyfloat" where
  "float_div NaN _ = NaN"
| "float_div _ NaN = NaN"
| "float_div (Fin a) (Fin b) =
     (if b \<noteq> 0 then Fin (a / b)
      else if a = 0 then NaN
      else if 0 < a then PInf else NInf)"
| "float_div (Fin a) PInf = Fin 0"
| "float_div (Fin a) NInf = Fin 0"
| "float_div PInf (Fin b) = (if 0 \<le> b then PInf else NInf)"
| "float_div NInf (Fin b) = (if 0 \<le> b then NInf else PInf)"
| "float_div _ _ = NaN"

text \<open>
  A field of a fetched row, by the types \<^verbatim>\<open>str2int\<close> tells apart: a \<^verbatim>\<open>str\<close> or
  \<^verbatim>\<open>unicode\<close>, an \<^verbatim>\<open>int\<close> or \<^verbatim>\<open>np.integer\<close>, a \<^verbatim>\<open>float\<close>, and a value of any other
  type (\<^verbatim>\<open>None\<close>, a list, ...).
\<close>

datatype pyval = VStr string | VInt int | VFloat pyfloat | VOther

text \<open>What \<^verbatim>\<open>str2int\<close> returns: an integer, or the float it was given.\<close>

datatype pynum = NInt int | NFloat pyfloat

fun to_float :: "pynum \<Rightarrow> pyfloat" where
  "to_float (NInt i) = Fin (of_int i)"
| "to_float (NFloat f) = f"

fun num_lt :: "pynum \<Rightarrow> pynum \<Rightarrow> bool" where
  "num_lt (NInt i) (NInt j) = (i < j)"
| "num_lt a b = float_lt (to_float a) (to_float b)"

text \<open>The exceptions the modelled code raises.\<close>

datatype error = ValueError | NotImplementedError | KeyError | IndexError | InvalidIndexError

section \<open>Python's \<^verbatim>\<open>int(s)\<close> on a string\<close>

text \<open>
  \<^verbatim>\<open>int(s)\<close> accepts a decimal literal: optional surrounding whitespace, an optional sign,
  one or more digits. Anything else raises \<^verbatim>\<open>ValueError\<close>.
\<close>

definition is_space :: "char \<Rightarrow> bool" where
  "is_space c = (c \<in> set [CHR '' '', CHR 0x09, CHR 0x0A, CHR 0x0B, CHR 0x0C, CHR 0x0D])"

definition strip :: "string \<Rightarrow> string" where
  "strip s = rev (dropWhile is_space (rev (dropWhile is_space s)))"

definition is_digit :: "char \<Rightarrow> bool" where
  "is_digit c = (48 \<le> (of_char c :: nat) \<and> (of_char c :: nat) \<le> 57)"

definition digit_val :: "char \<Rightarrow> int" where
  "digit_val c = int (of_char c) - 48"

definition digits_val :: "string \<Rightarrow> int" where
  "digits_val s = foldl (\<lambda>acc c. 10 * acc + digit_val c) 0 s"

definition parse_digits :: "string \<Rightarrow> error + int" where
  "parse_digits s = (if s \<noteq> [] \<and> list_all is_digit s then Inr (digits_val s) else Inl ValueError)"

definition py_int :: "string \<Rightarrow> error + int" where
  "py_int s =
     (case strip s of
        [] \<Rightarrow> Inl ValueError
      | c # r \<Rightarrow>
          if c = CHR ''-'' then map_sum id uminus (parse_digits r)
          else if c = CHR ''+'' then parse_digits r
          else parse_digits (c # r))"

section \<open>Data frames\<close>

text \<open>
  A \<^verbatim>\<open>pd.DataFrame\<close>: the row labels and the columns in order, each column a label with
  its cells, one per row label.
\<close>

record 'v frame =
  index :: "int list"
  cols :: "(string \<times> 'v list) list"

definition columns :: "'v frame \<Rightarrow> string list" where
  "columns df = map fst (cols df)"

text \<open>\<^verbatim>\<open>Series.apply(f)\<close>: the first exception ends the call.\<close>

fun apply_col :: "('a \<Rightarrow> error + 'b) \<Rightarrow> 'a list \<Rightarrow> error + 'b list" where
  "apply_col f [] = Inr []"
| "apply_col f (x # xs) =
     (case f x of
        Inl e \<Rightarrow> Inl e
      | Inr y \<Rightarrow> (case apply_col f xs of Inl e \<Rightarrow> Inl e | Inr ys \<Rightarrow> Inr (y # ys)))"

text \<open>The keys of \<^verbatim>\<open>groupby\<close>, and of a dict handed to pandas: distinct and sorted.\<close>

definition group_keys :: "string list \<Rightarrow> string list" where
  "group_keys ks = sort (remdups ks)"

section \<open>The trading calendar\<close>

text \<open>
  Modelled from the spec: \<^verbatim>\<open>Calendar.get_trade_date_range\<close> (module
  \<^verbatim>\<open>jaqs.data.calendar\<close>) is not in the source file. The spec's CalendarProvider returns
  "the ordered sequence of valid trading dates in that range", "inclusive of both
  endpoints, empty if no trading days exist in range". The calendar itself, the ascending
  list of all trading dates, is a parameter.
\<close>

definition get_trade_date_range :: "int list \<Rightarrow> int \<Rightarrow> int \<Rightarrow> int list" where
  "get_trade_date_range cal start_date end_date =
     filter (\<lambda>d. start_date \<le> d \<and> d \<le> end_date) cal"

section \<open>Index membership: \<^verbatim>\<open>get_index_comp_df\<close>\<close>

record comp_row =
  comp_symbol :: string
  in_date :: pyval
  out_date :: pyval

text \<open>
  \<^verbatim>\<open>_get_index_comp\<close>: the query of view \<^verbatim>\<open>lb.indexCons\<close>, a parameter, returns the rows
  and the status message. The parameter \<^verbatim>\<open>index\<close> of the source is \<open>idx\<close> throughout.
\<close>

definition u_get_index_comp ::
  "(string \<Rightarrow> int \<Rightarrow> int \<Rightarrow> comp_row list \<times> string) \<Rightarrow> string \<Rightarrow> int \<Rightarrow> int
     \<Rightarrow> comp_row list \<times> string" where
  "u_get_index_comp query idx start_date end_date = query idx start_date end_date"

fun str2int :: "pyval \<Rightarrow> error + pynum" where
  "str2int (VStr s) = (if s \<noteq> [] then map_sum id NInt (py_int s) else Inr (NInt 99999999))"
| "str2int (VInt i) = Inr (NInt i)"
| "str2int (VFloat f) = Inr (NFloat f)"
| "str2int VOther = Inl NotImplementedError"

text \<open>
  One pass of the inner loop: \<^verbatim>\<open>mask[np.logical_and(dates > in, dates < out)] = 1\<close>.
\<close>

definition mask_row :: "int list \<Rightarrow> int list \<Rightarrow> pynum \<times> pynum \<Rightarrow> int list" where
  "mask_row dates msk io =
     map (\<lambda>(d, m). if num_lt (fst io) (NInt d) \<and> num_lt (NInt d) (snd io) then 1 else m)
       (zip dates msk)"

definition comp_mask :: "int list \<Rightarrow> (pynum \<times> pynum) list \<Rightarrow> int list" where
  "comp_mask dates ios = foldl (mask_row dates) (replicate (length dates) 0) ios"

text \<open>
  The operation returns what it printed and either the exception it raised or the panel.
\<close>

definition get_index_comp_df ::
  "int list \<Rightarrow> (string \<Rightarrow> int \<Rightarrow> int \<Rightarrow> comp_row list \<times> string) \<Rightarrow> string \<Rightarrow> int \<Rightarrow> int
     \<Rightarrow> string list \<times> (error + int frame)" where
  "get_index_comp_df cal query idx start_date end_date =
     (let (df_io, msg) = u_get_index_comp query idx start_date end_date;
          printed = (if msg \<noteq> ''0,'' then [msg] else [])
      in (printed,
          case apply_col str2int (map in_date df_io) of
            Inl e \<Rightarrow> Inl e
          | Inr ins \<Rightarrow>
             (case apply_col str2int (map out_date df_io) of
                Inl e \<Rightarrow> Inl e
              | Inr outs \<Rightarrow>
                  let rows = zip (map comp_symbol df_io) (zip ins outs);
                      dates = get_trade_date_range cal start_date end_date;
                      dic = map (\<lambda>sec. (sec, comp_mask dates (map snd (filter (\<lambda>r. fst r = sec) rows))))
                              (group_keys (map comp_symbol df_io))
                  in Inr \<lparr>index = dates, cols = dic\<rparr>)))"

text \<open>A fetched record counts a date when its coerced dates strictly enclose it.\<close>

definition member_on :: "comp_row \<Rightarrow> int \<Rightarrow> bool" where
  "member_on r d =
     (case (str2int (in_date r), str2int (out_date r)) of
        (Inr a, Inr b) \<Rightarrow> num_lt a (NInt d) \<and> num_lt (NInt d) b
      | _ \<Rightarrow> False)"


section \<open>Frame operations\<close>

text \<open>\<^verbatim>\<open>DataFrame.drop_duplicates()\<close>: of equal rows the first stays.\<close>

definition drop_duplicates :: "'a list \<Rightarrow> 'a list" where
  "drop_duplicates xs = rev (remdups (rev xs))"

text \<open>\<^verbatim>\<open>s.split(sep)\<close>: the pieces between the separators; the empty string gives one empty piece.\<close>

fun split_sep :: "char \<Rightarrow> string \<Rightarrow> string list" where
  "split_sep sep [] = [[]]"
| "split_sep sep (c # cs) =
     (if c = sep then [] # split_sep sep cs
      else (case split_sep sep cs of
              w # ws \<Rightarrow> (c # w) # ws
            | [] \<Rightarrow> [[c]]))"

text \<open>\<^verbatim>\<open>pd.DataFrame(index=idx, columns=cs, data=v)\<close>.\<close>

definition new_frame :: "int list \<Rightarrow> string list \<Rightarrow> 'v \<Rightarrow> 'v frame" where
  "new_frame idx cs v = \<lparr>index = idx, cols = map (\<lambda>c. (c, replicate (length idx) v)) cs\<rparr>"

text \<open>
  Modelled from the spec: \<^verbatim>\<open>jutil.group_df_to_dict\<close> (module \<^verbatim>\<open>jaqs.util\<close>) is not in the
  source file. The spec's EventSeries construction is to "group rows by EntityId"; the
  dict is the list of the distinct keys, each with its rows in their fetched order.
\<close>

definition group_df_to_dict :: "('r \<Rightarrow> string) \<Rightarrow> 'r list \<Rightarrow> (string \<times> 'r list) list" where
  "group_df_to_dict by df = map (\<lambda>k. (k, filter (\<lambda>r. by r = k) df)) (group_keys (map by df))"

text \<open>The \<^verbatim>\<open>np.unique(np.concatenate(...))\<close> of the row labels of the series of a dict.\<close>

definition unique_index :: "(string \<times> (int \<times> 'v) list) list \<Rightarrow> int list" where
  "unique_index dic = sort (remdups (concat (map (\<lambda>kv. map fst (snd kv)) dic)))"

text \<open>
  \<^verbatim>\<open>pd.concat(dic, axis=1)\<close> of a dict of series: the columns are the keys, the row axis is
  the union of the row labels, a cell is \<open>na\<close> where the series has no such label. With
  nothing to concatenate pandas raises \<^verbatim>\<open>ValueError\<close>. A series that carries one row label
  twice cannot be aligned; the model raises there.
\<close>

definition concat_series :: "(string \<times> (int \<times> 'v) list) list \<Rightarrow> 'v \<Rightarrow> error + 'v frame" where
  "concat_series dic na =
     (if dic = [] then Inl ValueError
      else if \<not> list_all (\<lambda>kv. distinct (map fst (snd kv))) dic then Inl InvalidIndexError
      else Inr \<lparr>index = unique_index dic,
                cols = map (\<lambda>kv. (fst kv,
                          map (\<lambda>d. case map_of (snd kv) d of Some v \<Rightarrow> v | None \<Rightarrow> na)
                            (unique_index dic))) dic\<rparr>)"

text \<open>
  \<^verbatim>\<open>tgt.loc[src.index, src.columns] = src\<close>: the cells of \<open>tgt\<close> at the labels of \<open>src\<close>
  take the values of \<open>src\<close>; a label of \<open>src\<close> that \<open>tgt\<close> lacks raises \<^verbatim>\<open>KeyError\<close>.
\<close>

definition loc_set :: "'v frame \<Rightarrow> 'v frame \<Rightarrow> error + 'v frame" where
  "loc_set tgt src =
     (if \<not> (set (index src) \<subseteq> set (index tgt) \<and> set (columns src) \<subseteq> set (columns tgt))
      then Inl KeyError
      else Inr \<lparr>index = index tgt,
                cols = map (\<lambda>cx. (fst cx,
                         case map_of (cols src) (fst cx) of
                           None \<Rightarrow> snd cx
                         | Some ys \<Rightarrow>
                             map (\<lambda>dx. case map_of (zip (index src) ys) (fst dx) of
                                         None \<Rightarrow> snd dx
                                       | Some y \<Rightarrow> y)
                               (zip (index tgt) (snd cx))))
                       (cols tgt)\<rparr>)"

text \<open>\<^verbatim>\<open>df.reindex(new_idx)\<close>: the rows at the new labels, \<open>na\<close> where there was none.\<close>

definition reindex :: "'v \<Rightarrow> int list \<Rightarrow> 'v frame \<Rightarrow> 'v frame" where
  "reindex na new_idx df =
     \<lparr>index = new_idx,
      cols = map (\<lambda>cx. (fst cx,
                 map (\<lambda>d. case map_of (zip (index df) (snd cx)) d of Some v \<Rightarrow> v | None \<Rightarrow> na)
                   new_idx))
               (cols df)\<rparr>"

text \<open>
  \<^verbatim>\<open>fillna(method='ffill')\<close> on one column, \<open>na\<close> being the unfilled value: an unfilled
  cell takes the last filled value above it, and stays unfilled when there is none.
  \<^verbatim>\<open>bfill\<close> is the same from below.
\<close>

fun ffill_from :: "'v \<Rightarrow> 'v \<Rightarrow> 'v list \<Rightarrow> 'v list" where
  "ffill_from na prev [] = []"
| "ffill_from na prev (x # xs) =
     (if x = na then prev # ffill_from na prev xs else x # ffill_from na x xs)"

definition ffill :: "'v \<Rightarrow> 'v list \<Rightarrow> 'v list" where
  "ffill na xs = ffill_from na na xs"

definition bfill :: "'v \<Rightarrow> 'v list \<Rightarrow> 'v list" where
  "bfill na xs = rev (ffill na (rev xs))"

definition map_cols :: "('v list \<Rightarrow> 'w list) \<Rightarrow> 'v frame \<Rightarrow> 'w frame" where
  "map_cols f df = \<lparr>index = index df, cols = map (\<lambda>cx. (fst cx, f (snd cx))) (cols df)\<rparr>"

text \<open>\<^verbatim>\<open>shift(1, axis=0)\<close> on one column: every cell moves one row down, the first is NaN.\<close>

definition shift1 :: "pyfloat list \<Rightarrow> pyfloat list" where
  "shift1 xs = (if xs = [] then [] else NaN # butlast xs)"

text \<open>\<^verbatim>\<open>fillna(v)\<close> on one column.\<close>

definition fillna :: "pyfloat \<Rightarrow> pyfloat list \<Rightarrow> pyfloat list" where
  "fillna v xs = map (\<lambda>x. if isnan x then v else x) xs"

section \<open>Adjustment factors: \<^verbatim>\<open>get_adj_factor_daily\<close>\<close>

record adj_row =
  adj_symbol :: string
  trade_date :: int
  adjust_factor :: pyfloat

text \<open>
  \<^verbatim>\<open>get_adj_factor_raw\<close>: the query of view \<^verbatim>\<open>lb.secAdjFactor\<close> is a parameter that
  returns the rows, already of the types \<^verbatim>\<open>astype\<close> gives them, and the status
  message. A status other than \<^verbatim>\<open>'0,'\<close> is printed.
\<close>

definition get_adj_factor_raw ::
  "(string \<Rightarrow> int \<Rightarrow> int \<Rightarrow> adj_row list \<times> string) \<Rightarrow> string \<Rightarrow> int \<Rightarrow> int
     \<Rightarrow> string list \<times> adj_row list" where
  "get_adj_factor_raw query symbol start_date end_date =
     (let (df_raw, msg) = query symbol start_date end_date
      in (if msg \<noteq> ''0,'' then [msg] else [], drop_duplicates df_raw))"

text \<open>
  \<^verbatim>\<open>dic_sec\<close>: for every symbol of the fetched rows its series, the adjust factors by
  trade date.
\<close>

definition adj_dic :: "adj_row list \<Rightarrow> (string \<times> (int \<times> pyfloat) list) list" where
  "adj_dic df_raw =
     map (\<lambda>kv. (fst kv, map (\<lambda>r. (trade_date r, adjust_factor r)) (snd kv)))
       (group_df_to_dict adj_symbol df_raw)"

text \<open>
  The body of \<^verbatim>\<open>get_adj_factor_daily\<close> up to the optional ratio step; its flag
  \<^verbatim>\<open>div\<close> is \<open>do_div\<close> below.
\<close>

definition adj_factor_aligned :: "int list \<Rightarrow> string \<Rightarrow> adj_row list \<Rightarrow> error + pyfloat frame" where
  "adj_factor_aligned cal symbol df_raw =
     (let dic_sec = adj_dic df_raw
      in case concat_series dic_sec NaN of
           Inl e \<Rightarrow> Inl e
         | Inr res \<Rightarrow>
            (let idx = unique_index dic_sec;
                 symbol_arr = sort (split_sep CHR '','' symbol)
             in case loc_set (new_frame idx symbol_arr NaN) res of
                  Inl e \<Rightarrow> Inl e
                | Inr res_final \<Rightarrow>
                   (let s = Min (set (map trade_date df_raw));
                        e = Max (set (map trade_date df_raw));
                        dates_arr = get_trade_date_range cal s e
                    in if length dates_arr \<noteq> length (index res_final)
                       then Inr (map_cols (bfill NaN)
                                  (map_cols (ffill NaN) (reindex NaN dates_arr res_final)))
                       else Inr res_final)))"

text \<open>\<^verbatim>\<open>res_final.div(res_final.shift(1, axis=0)).fillna(1.0)\<close> on one column.\<close>

definition div_shift :: "pyfloat list \<Rightarrow> pyfloat list" where
  "div_shift xs = fillna (Fin 1) (map (\<lambda>xy. float_div (fst xy) (snd xy)) (zip xs (shift1 xs)))"

definition get_adj_factor_daily ::
  "int list \<Rightarrow> (string \<Rightarrow> int \<Rightarrow> int \<Rightarrow> adj_row list \<times> string) \<Rightarrow> string \<Rightarrow> int \<Rightarrow> int \<Rightarrow> bool
     \<Rightarrow> string list \<times> (error + pyfloat frame)" where
  "get_adj_factor_daily cal query symbol start_date end_date do_div =
     (let (printed, df_raw) = get_adj_factor_raw query symbol start_date end_date
      in (printed,
          case adj_factor_aligned cal symbol df_raw of
            Inl e \<Rightarrow> Inl e
          | Inr res_final \<Rightarrow>
              if do_div then Inr (map_cols div_shift res_final) else Inr res_final))"

text \<open>
  The value the fetched rows place at a symbol and a date: the factor of the first record
  with that symbol and trade date, NaN when there is none.
\<close>

definition placed :: "adj_row list \<Rightarrow> string \<Rightarrow> int \<Rightarrow> pyfloat" where
  "placed df_raw c d =
     (case find (\<lambda>r. adj_symbol r = c \<and> trade_date r = d) df_raw of
        Some r \<Rightarrow> adjust_factor r
      | None \<Rightarrow> NaN)"

text \<open>The trading dates from the minimum to the maximum observed trade date.\<close>

definition adj_span :: "int list \<Rightarrow> adj_row list \<Rightarrow> int list" where
  "adj_span cal df_raw =
     get_trade_date_range cal (Min (set (map trade_date df_raw))) (Max (set (map trade_date df_raw)))"

section \<open>Industry classification: \<^verbatim>\<open>get_industry_daily\<close>\<close>

record ind_row =
  ind_symbol :: string
  ind_in_date :: int
  industry_code :: string

text \<open>
  \<^verbatim>\<open>get_industry_raw\<close>: the source \<^verbatim>\<open>type_\<close> (\<open>src_type\<close> below) and the level are
  checked, then the query of view \<^verbatim>\<open>lb.secIndustry\<close>, a parameter, returns the rows (the
  code of the asked level, the \<^verbatim>\<open>in_date\<close> already an integer) and the status message.
\<close>

definition get_industry_raw ::
  "(string \<Rightarrow> string \<Rightarrow> int \<Rightarrow> ind_row list \<times> string) \<Rightarrow> string \<Rightarrow> string \<Rightarrow> int
     \<Rightarrow> string list \<times> (error + ind_row list)" where
  "get_industry_raw query symbol src_type level =
     (if src_type = ''SW'' \<and> level \<notin> {1, 2, 3, 4} then ([], Inl ValueError)
      else if src_type = ''ZZ'' \<and> level \<notin> {1, 2, 3, 4} then ([], Inl ValueError)
      else if src_type \<noteq> ''SW'' \<and> src_type \<noteq> ''ZZ'' then ([], Inl ValueError)
      else (let (df_raw, msg) = query symbol src_type level
            in (if msg \<noteq> ''0,'' then [msg] else [], Inr (drop_duplicates df_raw))))"

text \<open>
  \<^verbatim>\<open>dic_sec\<close>: the rows of every symbol sorted by \<^verbatim>\<open>in_date\<close> (rows of equal
  \<^verbatim>\<open>in_date\<close> keep their fetched order) and, by \<^verbatim>\<open>reset_index\<close>, labelled by position.
\<close>

definition ind_dic :: "ind_row list \<Rightarrow> (string \<times> ind_row list) list" where
  "ind_dic df_raw =
     map (\<lambda>kv. (fst kv, sort_key ind_in_date (snd kv))) (group_df_to_dict ind_symbol df_raw)"

definition position_series :: "('r \<Rightarrow> 'v) \<Rightarrow> 'r list \<Rightarrow> (int \<times> 'v option) list" where
  "position_series f df = zip (map int [0..<length df]) (map (\<lambda>r. Some (f r)) df)"

text \<open>
  Modelled from the spec: \<^verbatim>\<open>align.align\<close> (module \<^verbatim>\<open>jaqs.data.align\<close>) is not in the
  source file. The spec's announcement-gated alignment: a value "becomes effective only as
  of its announcement date", is placed "at the first axis date on/after the announcement
  date" and propagated "forward from there, never exposing a value before its announcement
  date"; of several records announced by a date "the one encountered later in the sorted
  input wins"; a date before every announcement is unfilled.
\<close>

definition align_cell :: "'v option list \<Rightarrow> int option list \<Rightarrow> int \<Rightarrow> 'v option" where
  "align_cell vals anns d =
     (let announced = filter (\<lambda>va. case snd va of Some t \<Rightarrow> t \<le> d | None \<Rightarrow> False) (zip vals anns)
      in if announced = [] then None else fst (last announced))"

definition align :: "'v option frame \<Rightarrow> int option frame \<Rightarrow> int list \<Rightarrow> 'v option frame" where
  "align df_value df_ann date_arr =
     \<lparr>index = date_arr,
      cols = map (\<lambda>va. (fst (fst va), map (align_cell (snd (fst va)) (snd (snd va))) date_arr))
               (zip (cols df_value) (cols df_ann))\<rparr>"

text \<open>The body of \<^verbatim>\<open>get_industry_daily\<close> up to the call of \<^verbatim>\<open>align\<close>.\<close>

definition industry_aligned ::
  "int list \<Rightarrow> string \<Rightarrow> int \<Rightarrow> int \<Rightarrow> ind_row list \<Rightarrow> error + string option frame" where
  "industry_aligned cal symbol start_date end_date df_raw =
     (let dic_sec = ind_dic df_raw;
          ann_dic = map (\<lambda>kv. (fst kv, position_series ind_in_date (snd kv))) dic_sec;
          value_dic = map (\<lambda>kv. (fst kv, position_series industry_code (snd kv))) dic_sec
      in case concat_series ann_dic None of
           Inl e \<Rightarrow> Inl e
         | Inr df_ann_tmp \<Rightarrow>
            (case concat_series value_dic None of
               Inl e \<Rightarrow> Inl e
             | Inr df_value_tmp \<Rightarrow>
                (let idx = unique_index ann_dic;
                     symbol_arr = sort (split_sep CHR '','' symbol)
                 in case loc_set (new_frame idx symbol_arr None) df_ann_tmp of
                      Inl e \<Rightarrow> Inl e
                    | Inr df_ann \<Rightarrow>
                       (case loc_set (new_frame idx symbol_arr None) df_value_tmp of
                          Inl e \<Rightarrow> Inl e
                        | Inr df_value \<Rightarrow>
                            Inr (align df_value df_ann
                                   (get_trade_date_range cal start_date end_date))))))"

text \<open>\<^verbatim>\<open>astype(str)\<close> on a cell: a code is its own text, an unfilled cell is \<^verbatim>\<open>'nan'\<close>.\<close>

fun pystr :: "string option \<Rightarrow> string" where
  "pystr (Some c) = c"
| "pystr None = ''nan''"

definition get_industry_daily ::
  "int list \<Rightarrow> (string \<Rightarrow> string \<Rightarrow> int \<Rightarrow> ind_row list \<times> string) \<Rightarrow> string \<Rightarrow> int \<Rightarrow> int
     \<Rightarrow> string \<Rightarrow> int \<Rightarrow> string list \<times> (error + string frame)" where
  "get_industry_daily cal query symbol start_date end_date src_type level =
     (case get_industry_raw query symbol src_type level of
        (printed, Inl e) \<Rightarrow> (printed, Inl e)
      | (printed, Inr df_raw) \<Rightarrow>
          (printed,
           case industry_aligned cal symbol start_date end_date df_raw of
             Inl e \<Rightarrow> Inl e
           | Inr df_industry \<Rightarrow>
               Inr (map_cols (map pystr) (map_cols (bfill None) df_industry))))"

section \<open>Index weights: \<^verbatim>\<open>get_index_weights_daily\<close>\<close>

record weight_row =
  w_symbol :: string
  weight :: pyfloat

text \<open>
  \<^verbatim>\<open>get_index_weights\<close>: the query of view \<^verbatim>\<open>lb.indexWeight\<close>, a parameter, returns the
  rows of one snapshot (the weight already a float) and the status message. The result is
  the series \<^verbatim>\<open>df['weight']\<close>, the weights by symbol.
\<close>

definition get_index_weights ::
  "(string \<Rightarrow> int \<Rightarrow> weight_row list \<times> string) \<Rightarrow> string \<Rightarrow> int
     \<Rightarrow> string list \<times> (string \<times> pyfloat) list" where
  "get_index_weights query idx td =
     (let (df_io, msg) = query (if idx = ''000300.SH'' then ''399300.SZ'' else idx) td
      in (if msg \<noteq> ''0,'' then [msg] else [], map (\<lambda>r. (w_symbol r, weight r)) df_io))"

text \<open>
  The state of the loop: what was printed, \<^verbatim>\<open>symbols_set\<close> and \<^verbatim>\<open>dic\<close>. One pass of
  its body at the date \<open>td\<close>:
\<close>

type_synonym weights_state = "string list \<times> string list \<times> (int \<times> (string \<times> pyfloat) list) list"

definition weights_step ::
  "(string \<Rightarrow> int \<Rightarrow> weight_row list \<times> string) \<Rightarrow> string \<Rightarrow> weights_state \<Rightarrow> int \<Rightarrow> weights_state" where
  "weights_step query idx st td =
     (case st of (printed, symbols_set, dic) \<Rightarrow>
        (case get_index_weights query idx td of (out, df) \<Rightarrow>
           (printed @ out, symbols_set @ map fst df, AList.update td df dic)))"

text \<open>
  The \<^verbatim>\<open>while True\<close> loop. \<^verbatim>\<open>jutil.get_next_period_day(td, 'month', 1)\<close> (module
  \<^verbatim>\<open>jaqs.util\<close>) is not in the source file; it is the parameter \<open>nxt\<close>. The loop ends
  only when a date beyond \<open>end_date\<close> is reached: \<open>None\<close> is a loop that never ends.
\<close>

partial_function (option) weights_loop ::
  "(int \<Rightarrow> int) \<Rightarrow> (string \<Rightarrow> int \<Rightarrow> weight_row list \<times> string) \<Rightarrow> string \<Rightarrow> int \<Rightarrow> int
     \<Rightarrow> weights_state \<Rightarrow> weights_state option" where
  "weights_loop nxt query idx end_date td st =
     (if td > end_date then Some st
      else weights_loop nxt query idx end_date (nxt td) (weights_step query idx st td))"

declare weights_loop.simps [code]

text \<open>
  \<^verbatim>\<open>pd.concat(dic, axis=1).T\<close> of a dict of series by symbol: the rows are the keys in
  order, the columns the symbols of all series, a cell is \<open>na\<close> where the series of that
  row has no such symbol. A series that carries one symbol twice cannot be aligned; the
  model raises there.
\<close>

definition concat_T :: "(int \<times> (string \<times> 'v) list) list \<Rightarrow> 'v \<Rightarrow> error + 'v frame" where
  "concat_T dic na =
     (if dic = [] then Inl ValueError
      else if \<not> list_all (\<lambda>kv. distinct (map fst (snd kv))) dic then Inl InvalidIndexError
      else Inr \<lparr>index = sort (map fst dic),
                cols = map (\<lambda>c. (c,
                          map (\<lambda>td. case map_of dic td of
                                      None \<Rightarrow> na
                                    | Some ser \<Rightarrow> (case map_of ser c of Some v \<Rightarrow> v | None \<Rightarrow> na))
                            (sort (map fst dic))))
                        (group_keys (concat (map (\<lambda>kv. map fst (snd kv)) dic)))\<rparr>)"

text \<open>
  \<^verbatim>\<open>tgt.update(other)\<close>: a cell of \<open>tgt\<close> takes the value \<open>other\<close> has at the same labels
  when \<open>other\<close> has these labels and the value is not NaN.
\<close>

definition frame_update :: "pyfloat frame \<Rightarrow> pyfloat frame \<Rightarrow> pyfloat frame" where
  "frame_update tgt other =
     \<lparr>index = index tgt,
      cols = map (\<lambda>cx. (fst cx,
                 case map_of (cols other) (fst cx) of
                   None \<Rightarrow> snd cx
                 | Some ys \<Rightarrow>
                     map (\<lambda>dx. case map_of (zip (index other) ys) (fst dx) of
                                 None \<Rightarrow> snd dx
                               | Some y \<Rightarrow> if isnan y then snd dx else y)
                       (zip (index tgt) (snd cx))))
               (cols tgt)\<rparr>"

text \<open>\<^verbatim>\<open>df.loc[a:b]\<close> on an ascending row axis: the rows labelled from \<open>a\<close> to \<open>b\<close>.\<close>

definition loc_rows :: "int \<Rightarrow> int \<Rightarrow> 'v frame \<Rightarrow> 'v frame" where
  "loc_rows a b df =
     \<lparr>index = filter (\<lambda>d. a \<le> d \<and> d \<le> b) (index df),
      cols = map (\<lambda>cx. (fst cx,
                 map snd (filter (\<lambda>dx. a \<le> fst dx \<and> fst dx \<le> b) (zip (index df) (snd cx)))))
               (cols df)\<rparr>"

definition get_index_weights_daily ::
  "int list \<Rightarrow> (int \<Rightarrow> int) \<Rightarrow> (string \<Rightarrow> int \<Rightarrow> weight_row list \<times> string) \<Rightarrow> string \<Rightarrow> int \<Rightarrow> int
     \<Rightarrow> (string list \<times> (error + pyfloat frame)) option" where
  "get_index_weights_daily cal nxt query idx start_date end_date =
     (let trade_dates = get_trade_date_range cal start_date end_date
      in if trade_dates = [] then Some ([], Inl IndexError)
         else (let s = hd trade_dates; e = last trade_dates
               in case weights_loop nxt query idx e s ([], [], []) of
                    None \<Rightarrow> None
                  | Some (printed, symbols_set, dic) \<Rightarrow>
                      Some (printed,
                        case concat_T dic NaN of
                          Inl err \<Rightarrow> Inl err
                        | Inr merge0 \<Rightarrow>
                            (let merge = map_cols (fillna (Fin 0)) merge0;
                                 res0 = new_frame trade_dates (group_keys symbols_set) NaN;
                                 res1 = frame_update res0 merge;
                                 res2 = map_cols (ffill NaN) res1
                             in Inr (loc_rows s e res2)))))"

text \<open>
  The dates the loop visits from \<open>td\<close>: each the \<open>nxt\<close> of the one before, none beyond
  \<open>end_date\<close>, and the \<open>nxt\<close> of the last beyond it.
\<close>

fun visits :: "(int \<Rightarrow> int) \<Rightarrow> int \<Rightarrow> int \<Rightarrow> int list \<Rightarrow> bool" where
  "visits nxt end_date td [] = (td > end_date)"
| "visits nxt end_date td (t # ts) = (t = td \<and> \<not> td > end_date \<and> visits nxt end_date (nxt td) ts)"

section \<open>Example inputs\<close>

text \<open>
  One entity with the membership interval \<open>(10, 20)\<close> on a calendar around it, and a
  fetch whose second row carries a value of another type as its \<^verbatim>\<open>out_date\<close>.
\<close>

definition ex_cal :: "int list" where
  "ex_cal = [9, 10, 11, 15, 19, 20, 21]"

definition ex_comp_query :: "string \<Rightarrow> int \<Rightarrow> int \<Rightarrow> comp_row list \<times> string" where
  "ex_comp_query idx start_date end_date =
     ([\<lparr>comp_symbol = ''A'', in_date = VInt 10, out_date = VInt 20\<rparr>], ''0,'')"

definition ex_bad_query :: "string \<Rightarrow> int \<Rightarrow> int \<Rightarrow> comp_row list \<times> string" where
  "ex_bad_query idx start_date end_date =
     ([\<lparr>comp_symbol = ''A'', in_date = VStr ''20170103'', out_date = VStr ''''\<rparr>,
       \<lparr>comp_symbol = ''B'', in_date = VInt 20170104, out_date = VOther\<rparr>], ''0,'')"

text \<open>
  Adjustment factors on the trading dates 20170103 to 20170106: a fetch in which \<open>B\<close> has
  no record on 20170104 although every date of the span is observed, a fetch in which no
  record falls on 20170104 at all, and a fetch with a factor of zero.
\<close>

definition ex_adj_cal :: "int list" where
  "ex_adj_cal = [20170103, 20170104, 20170105, 20170106]"

definition ex_adj_gap_query :: "string \<Rightarrow> int \<Rightarrow> int \<Rightarrow> adj_row list \<times> string" where
  "ex_adj_gap_query symbol start_date end_date =
     ([\<lparr>adj_symbol = ''A'', trade_date = 20170103, adjust_factor = Fin 1\<rparr>,
       \<lparr>adj_symbol = ''A'', trade_date = 20170104, adjust_factor = Fin 1\<rparr>,
       \<lparr>adj_symbol = ''A'', trade_date = 20170105, adjust_factor = Fin 2\<rparr>,
       \<lparr>adj_symbol = ''B'', trade_date = 20170103, adjust_factor = Fin 1\<rparr>,
       \<lparr>adj_symbol = ''B'', trade_date = 20170105, adjust_factor = Fin 3\<rparr>], ''0,'')"

definition ex_adj_query :: "string \<Rightarrow> int \<Rightarrow> int \<Rightarrow> adj_row list \<times> string" where
  "ex_adj_query symbol start_date end_date =
     ([\<lparr>adj_symbol = ''A'', trade_date = 20170103, adjust_factor = Fin 1\<rparr>,
       \<lparr>adj_symbol = ''A'', trade_date = 20170105, adjust_factor = Fin 2\<rparr>,
       \<lparr>adj_symbol = ''B'', trade_date = 20170105, adjust_factor = Fin 3\<rparr>], ''0,'')"

definition ex_adj_zero_query :: "string \<Rightarrow> int \<Rightarrow> int \<Rightarrow> adj_row list \<times> string" where
  "ex_adj_zero_query symbol start_date end_date =
     ([\<lparr>adj_symbol = ''A'', trade_date = 20170103, adjust_factor = Fin 0\<rparr>,
       \<lparr>adj_symbol = ''A'', trade_date = 20170104, adjust_factor = Fin 2\<rparr>], ''0,'')"

text \<open>
  Industry codes: \<open>A\<close> is classified \<open>a\<close> on 20200110 and \<open>b\<close> on 20200111, \<open>B\<close> is
  classified \<open>x\<close> on 20200101, on the trading dates 20200105, 20200110 and 20200112.
\<close>

definition ex_ind_cal :: "int list" where
  "ex_ind_cal = [20200105, 20200110, 20200112]"

definition ex_ind_query :: "string \<Rightarrow> string \<Rightarrow> int \<Rightarrow> ind_row list \<times> string" where
  "ex_ind_query symbol src_type level =
     ([\<lparr>ind_symbol = ''A'', ind_in_date = 20200111, industry_code = ''b''\<rparr>,
       \<lparr>ind_symbol = ''A'', ind_in_date = 20200110, industry_code = ''a''\<rparr>,
       \<lparr>ind_symbol = ''B'', ind_in_date = 20200101, industry_code = ''x''\<rparr>], ''0,'')"

text \<open>
  Index weights on the trading dates around October 2017, which resume on 20171009 after
  the holiday: snapshots on 20170929, then on 20171002 and 20171101, the first business
  days of the following months; 20171002 is no trading date. The failed queries return
  the rows of their namesakes with an error status.
\<close>

definition ex_w_cal :: "int list" where
  "ex_w_cal =
     [20170928, 20170929,
      20171009, 20171010, 20171011, 20171012, 20171013,
      20171016, 20171017, 20171018, 20171019, 20171020,
      20171023, 20171024, 20171025, 20171026, 20171027,
      20171030, 20171031, 20171101, 20171102]"

definition ex_nxt :: "int \<Rightarrow> int" where
  "ex_nxt td = (if td < 20171002 then 20171002 else if td < 20171101 then 20171101 else td + 100)"

definition ex_w_query :: "string \<Rightarrow> int \<Rightarrow> weight_row list \<times> string" where
  "ex_w_query idx td =
     (if td = 20170929
      then [\<lparr>w_symbol = ''A'', weight = Fin 0.6\<rparr>, \<lparr>w_symbol = ''B'', weight = Fin 0.4\<rparr>]
      else if td = 20171002
      then [\<lparr>w_symbol = ''A'', weight = Fin 0.5\<rparr>, \<lparr>w_symbol = ''C'', weight = Fin 0.5\<rparr>]
      else [\<lparr>w_symbol = ''C'', weight = Fin 1\<rparr>], ''0,'')"

definition ex_failed_comp_query :: "string \<Rightarrow> int \<Rightarrow> int \<Rightarrow> comp_row list \<times> string" where
  "ex_failed_comp_query idx start_date end_date =
     (fst (ex_comp_query idx start_date end_date), ''-1,timeout'')"

definition ex_failed_adj_query :: "string \<Rightarrow> int \<Rightarrow> int \<Rightarrow> adj_row list \<times> string" where
  "ex_failed_adj_query symbol start_date end_date =
     (fst (ex_adj_query symbol start_date end_date), ''-1,timeout'')"

definition ex_failed_ind_query :: "string \<Rightarrow> string \<Rightarrow> int \<Rightarrow> ind_row list \<times> string" where
  "ex_failed_ind_query symbol src_type level =
     (fst (ex_ind_query symbol src_type level), ''-1,timeout'')"

definition ex_failed_w_query :: "string \<Rightarrow> int \<Rightarrow> weight_row list \<times> string" where
  "ex_failed_w_query idx td = (fst (ex_w_query idx td), ''-1,timeout'')"

text \<open>
  Adjustment factors dated 20170104, which is no trading date of the calendar below: once
  with as many fetched dates as the span has trading dates, once fetched for the window
  from 20170105 to 20170106 with a record before the window.
\<close>

definition ex_adj_skip_cal :: "int list" where
  "ex_adj_skip_cal = [20170103, 20170105, 20170106]"

definition ex_adj_offcal_query :: "string \<Rightarrow> int \<Rightarrow> int \<Rightarrow> adj_row list \<times> string" where
  "ex_adj_offcal_query symbol start_date end_date =
     ([\<lparr>adj_symbol = ''A'', trade_date = 20170103, adjust_factor = Fin 1\<rparr>,
       \<lparr>adj_symbol = ''A'', trade_date = 20170104, adjust_factor = Fin 2\<rparr>,
       \<lparr>adj_symbol = ''A'', trade_date = 20170106, adjust_factor = Fin 3\<rparr>], ''0,'')"

definition ex_adj_before_query :: "string \<Rightarrow> int \<Rightarrow> int \<Rightarrow> adj_row list \<times> string" where
  "ex_adj_before_query symbol start_date end_date =
     ([\<lparr>adj_symbol = ''A'', trade_date = 20170104, adjust_factor = Fin 2\<rparr>,
       \<lparr>adj_symbol = ''A'', trade_date = 20170105, adjust_factor = Fin 3\<rparr>], ''0,'')"

text \<open>
  The trading dates 20200105 and 20200112: both classifications of \<open>A\<close> in
  \<open>ex_ind_query\<close> are announced between them.
\<close>

definition ex_ind_gap_cal :: "int list" where
  "ex_ind_gap_cal = [20200105, 20200112]"

section \<open>Properties of \<^verbatim>\<open>get_index_comp_df\<close>\<close>

lemma apply_col_Inr:
  "apply_col f xs = Inr ys \<Longrightarrow> ys = map (projr \<circ> f) xs \<and> (\<forall>x\<in>set xs. f x = Inr (projr (f x)))"
  by (induction xs arbitrary: ys) (auto split: sum.splits)

lemma length_mask_row: "length msk = length dates \<Longrightarrow> length (mask_row dates msk io) = length dates"
  by (simp add: mask_row_def)

lemma foldl_mask_row:
  "length msk = length dates \<Longrightarrow>
   length (foldl (mask_row dates) msk ios) = length dates \<and>
   (\<forall>i<length dates. foldl (mask_row dates) msk ios ! i =
      (if \<exists>io\<in>set ios. num_lt (fst io) (NInt (dates ! i)) \<and> num_lt (NInt (dates ! i)) (snd io)
       then 1 else msk ! i))"
proof (induction ios arbitrary: msk)
  case Nil
  then show ?case by simp
next
  case (Cons io ios)
  have len: "length (mask_row dates msk io) = length dates"
    using Cons.prems by (rule length_mask_row)
  have step: "\<forall>i<length dates. mask_row dates msk io ! i =
      (if num_lt (fst io) (NInt (dates ! i)) \<and> num_lt (NInt (dates ! i)) (snd io) then 1 else msk ! i)"
    using Cons.prems by (simp add: mask_row_def)
  from Cons.IH [OF len] step show ?case by auto
qed

lemma comp_mask_nth:
  "length (comp_mask dates ios) = length dates \<and>
   (\<forall>i<length dates. comp_mask dates ios ! i =
      (if \<exists>io\<in>set ios. num_lt (fst io) (NInt (dates ! i)) \<and> num_lt (NInt (dates ! i)) (snd io)
       then 1 else 0))"
proof -
  have "length (replicate (length dates) (0::int)) = length dates" by simp
  from foldl_mask_row [OF this, of ios] show ?thesis
    unfolding comp_mask_def by auto
qed

lemma member_on_iff:
  "str2int (in_date r) = Inr a \<Longrightarrow> str2int (out_date r) = Inr b \<Longrightarrow>
   member_on r d = (num_lt a (NInt d) \<and> num_lt (NInt d) b)"
  by (simp add: member_on_def)

lemma zip_map3: "zip (map f xs) (zip (map g xs) (map h xs)) = map (\<lambda>x. (f x, g x, h x)) xs"
  by (induction xs) auto

lemma map_of_group: "k \<in> set ks \<Longrightarrow> map_of (map (\<lambda>sec. (sec, f sec)) (group_keys ks)) k = Some (f k)"
  by (simp add: group_keys_def map_of_map_restrict)


text \<open>
  C1. In the panel of \<^verbatim>\<open>get_index_comp_df\<close> the rows are the trading dates of the
  requested range, and for every entity of the fetched rows and every date \<open>d\<close> of that
  axis the cell is 1 exactly when some fetched record of the entity has
  \<open>in_date < d < out_date\<close>, both strict, and 0 otherwise. Several records of one entity
  count a date that any of them encloses.
\<close>

theorem index_comp_membership:
  assumes run: "get_index_comp_df cal query idx s e = (printed, Inr p)"
      and sec: "sec \<in> set (map comp_symbol (fst (query idx s e)))"
  shows "index p = get_trade_date_range cal s e \<and>
         (\<exists>m. map_of (cols p) sec = Some m \<and> length m = length (index p) \<and>
           (\<forall>i<length (index p). m ! i =
              (if \<exists>r\<in>set (fst (query idx s e)). comp_symbol r = sec \<and> member_on r (index p ! i)
               then 1 else 0)))"
proof -
  obtain df_io msg where q: "query idx s e = (df_io, msg)" by (cases "query idx s e")
  from run q obtain ins outs where
    ins: "apply_col str2int (map in_date df_io) = Inr ins" and
    outs: "apply_col str2int (map out_date df_io) = Inr outs" and
    p: "p = \<lparr>index = get_trade_date_range cal s e,
             cols = map (\<lambda>sec. (sec, comp_mask (get_trade_date_range cal s e)
                      (map snd (filter (\<lambda>r. fst r = sec) (zip (map comp_symbol df_io) (zip ins outs))))))
                    (group_keys (map comp_symbol df_io))\<rparr>"
    by (auto simp: get_index_comp_df_def u_get_index_comp_def Let_def split: sum.splits)
  let ?a = "\<lambda>r. projr (str2int (in_date r))" and ?b = "\<lambda>r. projr (str2int (out_date r))"
  from apply_col_Inr [OF ins] have ins_eq: "ins = map ?a df_io"
    and ins_ok: "\<forall>r\<in>set df_io. str2int (in_date r) = Inr (?a r)" by (auto simp: comp_def)
  from apply_col_Inr [OF outs] have outs_eq: "outs = map ?b df_io"
    and outs_ok: "\<forall>r\<in>set df_io. str2int (out_date r) = Inr (?b r)" by (auto simp: comp_def)
  have rows: "zip (map comp_symbol df_io) (zip ins outs) = map (\<lambda>r. (comp_symbol r, ?a r, ?b r)) df_io"
    unfolding ins_eq outs_eq by (rule zip_map3)
  let ?dates = "get_trade_date_range cal s e"
  let ?ios = "map snd (filter (\<lambda>r. fst r = sec) (zip (map comp_symbol df_io) (zip ins outs)))"
  have ex: "(\<exists>io\<in>set ?ios. num_lt (fst io) (NInt d) \<and> num_lt (NInt d) (snd io)) \<longleftrightarrow>
            (\<exists>r\<in>set df_io. comp_symbol r = sec \<and> member_on r d)" for d
  proof -
    have set_ios: "set ?ios = (\<lambda>r. (?a r, ?b r)) ` {r \<in> set df_io. comp_symbol r = sec}"
      unfolding rows by (auto simp: filter_map comp_def)
    have mem: "member_on r d = (num_lt (?a r) (NInt d) \<and> num_lt (NInt d) (?b r))"
      if "r \<in> set df_io" for r
      using that ins_ok outs_ok member_on_iff by blast
    show ?thesis unfolding set_ios using mem by auto
  qed
  have m: "map_of (cols p) sec = Some (comp_mask ?dates ?ios)"
    using sec q unfolding p by (simp add: map_of_group)
  show ?thesis
    using m comp_mask_nth [of ?dates ?ios] ex q unfolding p by simp
qed



theorem index_comp_membership_witness:
  "get_index_comp_df ex_cal ex_comp_query ''000300.SH'' 9 21 =
     ([], Inr \<lparr>index = [9, 10, 11, 15, 19, 20, 21], cols = [(''A'', [0, 0, 1, 1, 1, 0, 0])]\<rparr>) \<and>
   ''A'' \<in> set (map comp_symbol (fst (ex_comp_query ''000300.SH'' 9 21))) \<and>
   (\<exists>m. map_of [(''A'', [0, 0, 1, 1, 1, 0, 0 :: int])] ''A'' = Some m \<and>
      m ! 1 = (if \<exists>r\<in>set (fst (ex_comp_query ''000300.SH'' 9 21)).
                   comp_symbol r = ''A'' \<and> member_on r 10 then 1 else 0) \<and>
      m ! 2 = (if \<exists>r\<in>set (fst (ex_comp_query ''000300.SH'' 9 21)).
                   comp_symbol r = ''A'' \<and> member_on r 11 then 1 else 0))"
proof -
  let ?p = "\<lparr>index = [9, 10, 11, 15, 19, 20, 21], cols = [(''A'', [0, 0, 1, 1, 1, 0, 0::int])]\<rparr>"
  have run: "get_index_comp_df ex_cal ex_comp_query ''000300.SH'' 9 21 = ([], Inr ?p)"
    by code_simp
  have sec: "''A'' \<in> set (map comp_symbol (fst (ex_comp_query ''000300.SH'' 9 21)))"
    by (simp add: ex_comp_query_def)
  from index_comp_membership [OF run sec] obtain m where
    m: "map_of (cols ?p) ''A'' = Some m" and
    cells: "\<forall>i<length (index ?p). m ! i =
       (if \<exists>r\<in>set (fst (ex_comp_query ''000300.SH'' 9 21)).
              comp_symbol r = ''A'' \<and> member_on r (index ?p ! i) then 1 else 0)"
    by blast
  from cells have "1 < length (index ?p) \<longrightarrow> m ! 1 =
       (if \<exists>r\<in>set (fst (ex_comp_query ''000300.SH'' 9 21)).
              comp_symbol r = ''A'' \<and> member_on r (index ?p ! 1) then 1 else 0)"
    by blast
  then have c1: "m ! 1 = (if \<exists>r\<in>set (fst (ex_comp_query ''000300.SH'' 9 21)).
                   comp_symbol r = ''A'' \<and> member_on r 10 then 1 else 0)"
    by simp
  from cells have "2 < length (index ?p) \<longrightarrow> m ! 2 =
       (if \<exists>r\<in>set (fst (ex_comp_query ''000300.SH'' 9 21)).
              comp_symbol r = ''A'' \<and> member_on r (index ?p ! 2) then 1 else 0)"
    by blast
  then have c2: "m ! 2 = (if \<exists>r\<in>set (fst (ex_comp_query ''000300.SH'' 9 21)).
                   comp_symbol r = ''A'' \<and> member_on r 11 then 1 else 0)"
    by simp
  from m have m': "map_of [(''A'', [0, 0, 1, 1, 1, 0, 0 :: int])] ''A'' = Some m"
    by simp
  show ?thesis using run sec m' c1 c2 by blast
qed

section \<open>Properties of \<^verbatim>\<open>str2int\<close>\<close>

lemma apply_col_fail:
  "x \<in> set xs \<Longrightarrow> f x = Inl e \<Longrightarrow> \<exists>e'. apply_col f xs = Inl e'"
  by (induction xs) (auto split: sum.splits)

lemma apply_col_Inl:
  "apply_col f xs = Inl e \<Longrightarrow> \<exists>x\<in>set xs. f x = Inl e"
  by (induction xs) (auto split: sum.splits)

lemma digit_not_space: "is_digit c \<Longrightarrow> \<not> is_space c"
  by (auto simp: is_digit_def is_space_def)

lemma strip_digits: "list_all is_digit s \<Longrightarrow> strip s = s"
proof (cases s rule: rev_cases)
  case Nil
  then show ?thesis by (simp add: strip_def)
next
  case (snoc ys y)
  assume d: "list_all is_digit s"
  have front: "dropWhile is_space s = s"
    using d snoc by (cases ys) (auto simp: digit_not_space)
  have rear: "dropWhile is_space (rev s) = rev s"
    using d snoc by (auto simp: digit_not_space)
  show ?thesis by (simp add: strip_def front rear)
qed

lemma py_int_digits:
  assumes "s \<noteq> []" "list_all is_digit s"
  shows "py_int s = Inr (digits_val s)"
proof -
  obtain c r where s: "s = c # r" using assms(1) by (cases s) auto
  have "is_digit c" using assms(2) s by simp
  then have "c \<noteq> CHR ''-''" "c \<noteq> CHR ''+''" by (auto simp: is_digit_def)
  then show ?thesis
    using assms s by (simp add: py_int_def strip_digits parse_digits_def)
qed

lemma str2int_Inl: "str2int v = Inl e \<Longrightarrow> e = NotImplementedError \<or> e = ValueError"
  by (cases v) (auto simp: py_int_def parse_digits_def split: if_splits list.splits)


text \<open>
  C8. \<^verbatim>\<open>str2int\<close> maps the blank string to the sentinel 99999999, which lies beyond
  every date below it, so a record with a blank \<^verbatim>\<open>out_date\<close> counts every such date after
  its \<^verbatim>\<open>in_date\<close>; a non-blank string of digits is parsed as the integer it spells; an
  integer or a float passes through; a value of any other type raises
  \<^verbatim>\<open>NotImplementedError\<close>, and then the whole query raises and no panel is returned.
\<close>

theorem str2int_coercion:
  "str2int (VStr '''') = Inr (NInt 99999999) \<and>
   (out_date r = VStr '''' \<and> str2int (in_date r) = Inr a \<and> d < 99999999 \<longrightarrow>
      member_on r d = num_lt a (NInt d)) \<and>
   (s \<noteq> [] \<and> list_all is_digit s \<longrightarrow> str2int (VStr s) = Inr (NInt (digits_val s))) \<and>
   str2int (VInt i) = Inr (NInt i) \<and>
   str2int (VFloat f) = Inr (NFloat f) \<and>
   str2int VOther = Inl NotImplementedError \<and>
   ((\<exists>x\<in>set (fst (query idx start_date end_date)). in_date x = VOther \<or> out_date x = VOther) \<longrightarrow>
      (\<exists>e. snd (get_index_comp_df cal query idx start_date end_date) = Inl e \<and>
           (e = NotImplementedError \<or> e = ValueError)))"
proof -
  have sentinel: "member_on r d = num_lt a (NInt d)"
    if "out_date r = VStr ''''" "str2int (in_date r) = Inr a" "d < 99999999"
    using that by (simp add: member_on_def)
  have digits: "str2int (VStr s) = Inr (NInt (digits_val s))"
    if "s \<noteq> []" "list_all is_digit s"
    using that by (simp add: py_int_digits)
  have fails: "\<exists>e. snd (get_index_comp_df cal query idx start_date end_date) = Inl e \<and>
                 (e = NotImplementedError \<or> e = ValueError)"
    if bad: "\<exists>x\<in>set (fst (query idx start_date end_date)). in_date x = VOther \<or> out_date x = VOther"
  proof -
    obtain df_io msg where q: "query idx start_date end_date = (df_io, msg)"
      by (cases "query idx start_date end_date")
    from bad q obtain x where x: "x \<in> set df_io" "in_date x = VOther \<or> out_date x = VOther"
      by auto
    show ?thesis
    proof (cases "apply_col str2int (map in_date df_io)")
      case (Inl e)
      from apply_col_Inl [OF Inl] str2int_Inl have "e = NotImplementedError \<or> e = ValueError"
        by blast
      with Inl q show ?thesis
        by (simp add: get_index_comp_df_def u_get_index_comp_def)
    next
      case (Inr ins)
      from x(1) have "in_date x \<in> set (map in_date df_io)" by simp
      with apply_col_Inr [OF Inr] have "\<exists>y. str2int (in_date x) = Inr y"
        by blast
      then have "in_date x \<noteq> VOther" by auto
      with x have other: "out_date x = VOther" by simp
      from x(1) have mem: "out_date x \<in> set (map out_date df_io)" by simp
      from other have bad_out: "str2int (out_date x) = Inl NotImplementedError" by simp
      from apply_col_fail [of "out_date x" "map out_date df_io" str2int, OF mem bad_out] obtain e where
        e: "apply_col str2int (map out_date df_io) = Inl e" ..
      from apply_col_Inl [OF e] str2int_Inl have "e = NotImplementedError \<or> e = ValueError"
        by blast
      with Inr e q show ?thesis
        by (simp add: get_index_comp_df_def u_get_index_comp_def)
    qed
  qed
  show ?thesis
  proof (intro conjI impI)
    show "str2int (VStr '''') = Inr (NInt 99999999)" by simp
    show "member_on r d = num_lt a (NInt d)"
      if "out_date r = VStr '''' \<and> str2int (in_date r) = Inr a \<and> d < 99999999"
      using that sentinel by blast
    show "str2int (VStr s) = Inr (NInt (digits_val s))" if "s \<noteq> [] \<and> list_all is_digit s"
      using that digits by blast
    show "str2int (VInt i) = Inr (NInt i)" by simp
    show "str2int (VFloat f) = Inr (NFloat f)" by simp
    show "str2int VOther = Inl NotImplementedError" by simp
    show "\<exists>e. snd (get_index_comp_df cal query idx start_date end_date) = Inl e \<and>
                 (e = NotImplementedError \<or> e = ValueError)"
      if "\<exists>x\<in>set (fst (query idx start_date end_date)). in_date x = VOther \<or> out_date x = VOther"
      using that by (rule fails)
  qed
qed

theorem str2int_coercion_witness:
  "member_on \<lparr>comp_symbol = ''A'', in_date = VStr ''20170103'', out_date = VStr ''''\<rparr> 20170105 \<and>
   str2int (VStr ''20170103'') = Inr (NInt 20170103) \<and>
   (\<exists>x\<in>set (fst (ex_bad_query ''000300.SH'' 20170101 20170131)).
       in_date x = VOther \<or> out_date x = VOther) \<and>
   snd (get_index_comp_df [20170103, 20170104, 20170105] ex_bad_query ''000300.SH'' 20170101 20170131)
     = Inl NotImplementedError"
proof -
  let ?r = "\<lparr>comp_symbol = ''A'', in_date = VStr ''20170103'', out_date = VStr ''''\<rparr>"
  have in_ok: "str2int (in_date ?r) = Inr (NInt 20170103)" by code_simp
  have dg: "''20170103'' \<noteq> [] \<and> list_all is_digit ''20170103''" by code_simp
  have val: "digits_val ''20170103'' = 20170103" by code_simp
  have bad: "\<exists>x\<in>set (fst (ex_bad_query ''000300.SH'' 20170101 20170131)).
       in_date x = VOther \<or> out_date x = VOther"
    by (simp add: ex_bad_query_def)
  note inst = str2int_coercion [of ?r "NInt 20170103" 20170105 "''20170103''" _ _
      ex_bad_query "''000300.SH''" 20170101 20170131 "[20170103, 20170104, 20170105]"]
  from inst in_ok have c1: "member_on ?r 20170105" by simp
  from inst dg val have c2: "str2int (VStr ''20170103'') = Inr (NInt 20170103)" by simp
  have run: "snd (get_index_comp_df [20170103, 20170104, 20170105] ex_bad_query ''000300.SH'' 20170101 20170131)
     = Inl NotImplementedError"
    by code_simp
  show ?thesis
    by (rule conjI [OF c1 conjI [OF c2 conjI [OF bad run]]])
qed


section \<open>Properties of \<^verbatim>\<open>get_adj_factor_daily\<close>\<close>


lemma map_of_series:
  "map_of (map (\<lambda>r. (trade_date r, adjust_factor r)) (filter (\<lambda>r. adj_symbol r = c) df)) d =
   map_option adjust_factor (find (\<lambda>r. adj_symbol r = c \<and> trade_date r = d) df)"
  by (induction df) auto

lemma series_cell:
  "(case map_of (map (\<lambda>r. (trade_date r, adjust_factor r)) (filter (\<lambda>r. adj_symbol r = c) df)) d of
      Some v \<Rightarrow> v | None \<Rightarrow> NaN) = placed df c d"
  by (simp add: map_of_series placed_def split: option.splits)

lemma find_Some_set: "find P xs = Some x \<Longrightarrow> P x \<and> x \<in> set xs"
  by (induction xs) (auto split: if_splits)

lemma placed_absent: "c \<notin> set (map adj_symbol df) \<Longrightarrow> placed df c d = NaN"
  by (auto simp: placed_def split: option.splits dest!: find_Some_set)

lemma placed_off_axis: "d \<notin> set (map trade_date df) \<Longrightarrow> placed df c d = NaN"
  by (auto simp: placed_def split: option.splits dest!: find_Some_set)

lemma set_group_keys: "set (group_keys ks) = set ks"
  by (simp add: group_keys_def)

lemma adj_dic_eq:
  "adj_dic df = map (\<lambda>k. (k, map (\<lambda>r. (trade_date r, adjust_factor r)) (filter (\<lambda>r. adj_symbol r = k) df)))
                  (group_keys (map adj_symbol df))"
  by (simp add: adj_dic_def group_df_to_dict_def comp_def)

lemma set_unique_index_adj: "set (unique_index (adj_dic df)) = set (map trade_date df)"
  by (auto simp: unique_index_def adj_dic_eq set_group_keys comp_def)

lemma unique_index_adj: "unique_index (adj_dic df) = sort (remdups (map trade_date df))"
proof (rule sorted_distinct_set_unique)
  show "set (unique_index (adj_dic df)) = set (sort (remdups (map trade_date df)))"
    by (simp add: set_unique_index_adj)
qed (simp_all add: unique_index_def)


lemma lookup_zip_map:
  "(case map_of (zip xs (map f xs)) d of Some v \<Rightarrow> v | None \<Rightarrow> na) = (if d \<in> set xs then f d else na)"
  by (simp add: map_of_zip_map)

lemma overlay_zip_map:
  "map (\<lambda>dx. case map_of (zip xs (map f xs)) (fst dx) of None \<Rightarrow> snd dx | Some y \<Rightarrow> y)
     (zip xs (replicate (length xs) na)) = map f xs"
  by (rule nth_equalityI) (simp_all add: map_of_zip_map)

lemma map_of_keyed:
  "map_of (map (\<lambda>k. (k, f k)) ks) c = (if c \<in> set ks then Some (f c) else None)"
  by (induction ks) auto

lemma concat_series_adj:
  assumes "concat_series (adj_dic df) NaN = Inr res"
  shows "df \<noteq> [] \<and> index res = unique_index (adj_dic df) \<and>
         cols res = map (\<lambda>k. (k, map (placed df k) (unique_index (adj_dic df)))) (group_keys (map adj_symbol df))"
proof -
  from assms have ne: "adj_dic df \<noteq> []" and
    res: "res = \<lparr>index = unique_index (adj_dic df),
                cols = map (\<lambda>kv. (fst kv,
                          map (\<lambda>d. case map_of (snd kv) d of Some v \<Rightarrow> v | None \<Rightarrow> NaN)
                            (unique_index (adj_dic df)))) (adj_dic df)\<rparr>"
    by (auto simp: concat_series_def split: if_splits)
  from ne have "df \<noteq> []" by (auto simp: adj_dic_eq group_keys_def)
  moreover have "cols res = map (\<lambda>k. (k, map (placed df k) (unique_index (adj_dic df)))) (group_keys (map adj_symbol df))"
    unfolding res by (simp add: adj_dic_eq comp_def series_cell)
  ultimately show ?thesis using res by simp
qed

lemma loc_set_adj:
  assumes res: "index res = idx" "cols res = map (\<lambda>k. (k, map (placed df k) idx)) ks"
      and ls: "loc_set (new_frame idx cs NaN) res = Inr res_final"
      and ks: "set ks = set (map adj_symbol df)"
  shows "set ks \<subseteq> set cs \<and> res_final = \<lparr>index = idx, cols = map (\<lambda>c. (c, map (placed df c) idx)) cs\<rparr>"
proof -
  let ?tgt = "new_frame idx cs NaN"
  from ls have sub: "set (index res) \<subseteq> set (index ?tgt) \<and> set (columns res) \<subseteq> set (columns ?tgt)"
    by (simp add: loc_set_def split: if_splits)
  with ls have rf: "res_final = \<lparr>index = index ?tgt,
                cols = map (\<lambda>cx. (fst cx,
                         case map_of (cols res) (fst cx) of
                           None \<Rightarrow> snd cx
                         | Some ys \<Rightarrow>
                             map (\<lambda>dx. case map_of (zip (index res) ys) (fst dx) of
                                         None \<Rightarrow> snd dx
                                       | Some y \<Rightarrow> y)
                               (zip (index ?tgt) (snd cx))))
                       (cols ?tgt)\<rparr>"
    by (simp add: loc_set_def)
  from sub have "set ks \<subseteq> set cs"
    by (simp add: columns_def res new_frame_def comp_def)
  moreover have "(case map_of (cols res) c of
                           None \<Rightarrow> replicate (length idx) NaN
                         | Some ys \<Rightarrow>
                             map (\<lambda>dx. case map_of (zip (index res) ys) (fst dx) of
                                         None \<Rightarrow> snd dx
                                       | Some y \<Rightarrow> y)
                               (zip idx (replicate (length idx) NaN))) = map (placed df c) idx" for c
  proof (cases "c \<in> set ks")
    case True
    then show ?thesis by (simp add: res map_of_keyed overlay_zip_map)
  next
    case False
    with ks have "placed df c d = NaN" for d by (simp add: placed_absent)
    with False show ?thesis by (simp add: res map_of_keyed map_replicate_const [symmetric])
  qed
  then have "res_final = \<lparr>index = idx, cols = map (\<lambda>c. (c, map (placed df c) idx)) cs\<rparr>"
    unfolding rf by (simp add: new_frame_def comp_def cong: option.case_cong)
  ultimately show ?thesis by simp
qed

lemma reindex_adj:
  assumes "set idx = set (map trade_date df)"
  shows "reindex NaN dates \<lparr>index = idx, cols = map (\<lambda>c. (c, map (placed df c) idx)) cs\<rparr> =
         \<lparr>index = dates, cols = map (\<lambda>c. (c, map (placed df c) dates)) cs\<rparr>"
proof -
  have "(case map_of (zip idx (map (placed df c) idx)) d of Some v \<Rightarrow> v | None \<Rightarrow> NaN) = placed df c d" for c d
    using assms by (simp add: lookup_zip_map placed_off_axis)
  then show ?thesis by (simp add: reindex_def comp_def)
qed

lemma adj_factor_aligned_Inr:
  assumes run: "adj_factor_aligned cal symbol df = Inr p"
  shows "df \<noteq> [] \<and> set (map adj_symbol df) \<subseteq> set (sort (split_sep CHR '','' symbol)) \<and>
         p = (if length (adj_span cal df) \<noteq> length (sort (remdups (map trade_date df)))
              then \<lparr>index = adj_span cal df,
                    cols = map (\<lambda>c. (c, bfill NaN (ffill NaN (map (placed df c) (adj_span cal df)))))
                             (sort (split_sep CHR '','' symbol))\<rparr>
              else \<lparr>index = sort (remdups (map trade_date df)),
                    cols = map (\<lambda>c. (c, map (placed df c) (sort (remdups (map trade_date df)))))
                             (sort (split_sep CHR '','' symbol))\<rparr>)"
proof -
  let ?idx = "sort (remdups (map trade_date df))"
  let ?cs = "sort (split_sep CHR '','' symbol)"
  from run obtain res where cs: "concat_series (adj_dic df) NaN = Inr res"
    by (auto simp: adj_factor_aligned_def Let_def split: sum.splits)
  from concat_series_adj [OF cs] have ne: "df \<noteq> []" and
    ri: "index res = ?idx" and
    rc: "cols res = map (\<lambda>k. (k, map (placed df k) ?idx)) (group_keys (map adj_symbol df))"
    by (simp_all add: unique_index_adj)
  from run cs obtain res_final where ls: "loc_set (new_frame ?idx ?cs NaN) res = Inr res_final"
    by (auto simp: adj_factor_aligned_def Let_def unique_index_adj split: sum.splits)
  from loc_set_adj [OF ri rc ls] have sub: "set (map adj_symbol df) \<subseteq> set ?cs"
    and rf: "res_final = \<lparr>index = ?idx, cols = map (\<lambda>c. (c, map (placed df c) ?idx)) ?cs\<rparr>"
    by (simp_all add: set_group_keys)
  have ridx: "reindex NaN (adj_span cal df) res_final =
      \<lparr>index = adj_span cal df, cols = map (\<lambda>c. (c, map (placed df c) (adj_span cal df))) ?cs\<rparr>"
    unfolding rf by (rule reindex_adj) simp
  from run cs ls have "p = (if length (adj_span cal df) \<noteq> length (index res_final)
         then map_cols (bfill NaN) (map_cols (ffill NaN) (reindex NaN (adj_span cal df) res_final))
         else res_final)"
    by (auto simp: adj_factor_aligned_def Let_def unique_index_adj adj_span_def split: sum.splits)
  then have "p = (if length (adj_span cal df) \<noteq> length ?idx
         then \<lparr>index = adj_span cal df,
                    cols = map (\<lambda>c. (c, bfill NaN (ffill NaN (map (placed df c) (adj_span cal df))))) ?cs\<rparr>
         else \<lparr>index = ?idx, cols = map (\<lambda>c. (c, map (placed df c) ?idx)) ?cs\<rparr>)"
    unfolding ridx unfolding rf by (simp add: map_cols_def comp_def)
  with ne sub show ?thesis by simp
qed




lemma length_ffill_from: "length (ffill_from na prev xs) = length xs"
  by (induction xs arbitrary: prev) auto

lemma ffill_from_filled: "prev \<noteq> na \<Longrightarrow> na \<notin> set (ffill_from na prev xs)"
  by (induction xs arbitrary: prev) auto

lemma ffill_from_all_na: "\<forall>x\<in>set xs. x = na \<Longrightarrow> ffill_from na na xs = xs"
  by (induction xs) auto

lemma ffill_from_last:
  "\<exists>x\<in>set xs. x \<noteq> na \<Longrightarrow> last (ffill_from na prev xs) \<noteq> na"
proof (induction xs arbitrary: prev)
  case Nil
  then show ?case by simp
next
  case (Cons x xs)
  show ?case
  proof (cases "x = na")
    case True
    with Cons.prems have ex: "\<exists>y\<in>set xs. y \<noteq> na" by auto
    then have "xs \<noteq> []" by auto
    then have "ffill_from na prev xs \<noteq> []"
      using length_ffill_from [of na prev xs] by auto
    with True Cons.IH [OF ex] show ?thesis by simp
  next
    case False
    have "na \<notin> set (x # ffill_from na x xs)"
      using False ffill_from_filled [OF False, of xs] by auto
    then have "last (x # ffill_from na x xs) \<noteq> na"
      using last_in_set [of "x # ffill_from na x xs"] by auto
    with False show ?thesis by simp
  qed
qed

lemma ffill_head_filled: "xs \<noteq> [] \<Longrightarrow> hd xs \<noteq> na \<Longrightarrow> na \<notin> set (ffill na xs)"
  by (cases xs) (auto simp: ffill_def ffill_from_filled)

lemma length_fill_both: "length (bfill na (ffill na xs)) = length xs"
  by (simp add: bfill_def ffill_def length_ffill_from)

lemma fill_both_filled:
  assumes "\<exists>x\<in>set xs. x \<noteq> na"
  shows "na \<notin> set (bfill na (ffill na xs))"
proof -
  let ?ys = "ffill na xs"
  from assms have "xs \<noteq> []" by auto
  then have ne: "?ys \<noteq> []"
    using length_ffill_from [of na na xs] by (auto simp: ffill_def)
  from assms have "last ?ys \<noteq> na" by (simp add: ffill_def ffill_from_last)
  with ne have "hd (rev ?ys) \<noteq> na" by (simp add: hd_rev)
  with ne have "na \<notin> set (ffill na (rev ?ys))" by (simp add: ffill_head_filled)
  then show ?thesis by (simp add: bfill_def)
qed

lemma fill_both_all_na:
  assumes "\<forall>x\<in>set xs. x = na"
  shows "bfill na (ffill na xs) = xs"
proof -
  from assms have "ffill na xs = xs" by (simp add: ffill_def ffill_from_all_na)
  moreover from assms have "ffill na (rev xs) = rev xs" by (simp add: ffill_def ffill_from_all_na)
  ultimately show ?thesis by (simp add: bfill_def)
qed

lemma set_drop_duplicates: "set (drop_duplicates xs) = set xs"
  by (simp add: drop_duplicates_def)

lemma adj_daily_False:
  "snd (get_adj_factor_daily cal query symbol start_date end_date False) =
   adj_factor_aligned cal symbol (snd (get_adj_factor_raw query symbol start_date end_date))"
  by (simp add: get_adj_factor_daily_def split_beta Let_def split: sum.splits)

lemma adj_daily_True:
  "snd (get_adj_factor_daily cal query symbol start_date end_date True) =
   map_sum id (map_cols div_shift)
     (adj_factor_aligned cal symbol (snd (get_adj_factor_raw query symbol start_date end_date)))"
  by (simp add: get_adj_factor_daily_def split_beta Let_def split: sum.splits)

text \<open>
  C5, as the code has it. \<^verbatim>\<open>get_adj_factor_daily\<close> places the factor of each record at its
  trade date and symbol. If and only if the number of trading dates from the minimum to the
  maximum observed trade date differs from the number of distinct observed trade dates, it
  reindexes onto those trading dates and applies one forward fill followed by one backward
  fill, after which a column is unfilled throughout when it has no value on those dates and
  has no unfilled cell otherwise. When the two numbers agree the placed panel is returned
  as it is, without any fill.
\<close>

theorem adj_factor_fill:
  assumes run: "snd (get_adj_factor_daily cal query symbol start_date end_date False) = Inr p"
  shows "(length (adj_span cal (snd (get_adj_factor_raw query symbol start_date end_date))) \<noteq>
          length (sort (remdups (map trade_date (snd (get_adj_factor_raw query symbol start_date end_date))))) \<longrightarrow>
            index p = adj_span cal (snd (get_adj_factor_raw query symbol start_date end_date)) \<and>
            (\<forall>cx\<in>set (cols p).
               snd cx = bfill NaN (ffill NaN
                 (map (placed (snd (get_adj_factor_raw query symbol start_date end_date)) (fst cx)) (index p))) \<and>
               length (snd cx) = length (index p) \<and>
               (if \<exists>d\<in>set (index p).
                     placed (snd (get_adj_factor_raw query symbol start_date end_date)) (fst cx) d \<noteq> NaN
                then NaN \<notin> set (snd cx) else \<forall>x\<in>set (snd cx). x = NaN))) \<and>
         (length (adj_span cal (snd (get_adj_factor_raw query symbol start_date end_date))) =
          length (sort (remdups (map trade_date (snd (get_adj_factor_raw query symbol start_date end_date))))) \<longrightarrow>
            index p = sort (remdups (map trade_date (snd (get_adj_factor_raw query symbol start_date end_date)))) \<and>
            (\<forall>cx\<in>set (cols p).
               snd cx = map (placed (snd (get_adj_factor_raw query symbol start_date end_date)) (fst cx)) (index p)))"
proof -
  let ?df = "snd (get_adj_factor_raw query symbol start_date end_date)"
  let ?span = "adj_span cal ?df"
  let ?idx = "sort (remdups (map trade_date ?df))"
  let ?cs = "sort (split_sep CHR '','' symbol)"
  from run have al: "adj_factor_aligned cal symbol ?df = Inr p"
    by (simp add: adj_daily_False)
  note ch = adj_factor_aligned_Inr [OF al]
  show ?thesis
  proof (intro conjI impI)
    assume ne: "length ?span \<noteq> length ?idx"
    with ch have p: "p = \<lparr>index = ?span,
        cols = map (\<lambda>c. (c, bfill NaN (ffill NaN (map (placed ?df c) ?span)))) ?cs\<rparr>"
      by simp
    show "index p = ?span" by (simp add: p)
    show "\<forall>cx\<in>set (cols p).
            snd cx = bfill NaN (ffill NaN (map (placed ?df (fst cx)) (index p))) \<and>
            length (snd cx) = length (index p) \<and>
            (if \<exists>d\<in>set (index p). placed ?df (fst cx) d \<noteq> NaN
             then NaN \<notin> set (snd cx) else \<forall>x\<in>set (snd cx). x = NaN)"
    proof
      fix cx assume "cx \<in> set (cols p)"
      then obtain c where cx: "cx = (c, bfill NaN (ffill NaN (map (placed ?df c) ?span)))"
        by (auto simp: p)
      let ?xs = "map (placed ?df c) ?span"
      have "NaN \<notin> set (bfill NaN (ffill NaN ?xs))" if "\<exists>d\<in>set ?span. placed ?df c d \<noteq> NaN"
        using that by (intro fill_both_filled) auto
      moreover have "\<forall>x\<in>set (bfill NaN (ffill NaN ?xs)). x = NaN"
        if "\<not> (\<exists>d\<in>set ?span. placed ?df c d \<noteq> NaN)"
      proof -
        from that have "\<forall>x\<in>set ?xs. x = NaN" by auto
        then have "bfill NaN (ffill NaN ?xs) = ?xs" by (rule fill_both_all_na)
        with that show ?thesis by auto
      qed
      ultimately show "snd cx = bfill NaN (ffill NaN (map (placed ?df (fst cx)) (index p))) \<and>
            length (snd cx) = length (index p) \<and>
            (if \<exists>d\<in>set (index p). placed ?df (fst cx) d \<noteq> NaN
             then NaN \<notin> set (snd cx) else \<forall>x\<in>set (snd cx). x = NaN)"
        unfolding cx by (simp add: p length_fill_both)
    qed
  next
    assume eq: "length ?span = length ?idx"
    with ch have p: "p = \<lparr>index = ?idx, cols = map (\<lambda>c. (c, map (placed ?df c) ?idx)) ?cs\<rparr>"
      by simp
    show "index p = ?idx" by (simp add: p)
    show "\<forall>cx\<in>set (cols p). snd cx = map (placed ?df (fst cx)) (index p)"
      by (auto simp: p)
  qed
qed




theorem adj_factor_fill_witness:
  "snd (get_adj_factor_daily ex_adj_cal ex_adj_query ''A,B,C'' 20170103 20170105 False) =
     Inr \<lparr>index = [20170103, 20170104, 20170105],
          cols = [(''A'', [Fin 1, Fin 1, Fin 2]), (''B'', [Fin 3, Fin 3, Fin 3]),
                  (''C'', [NaN, NaN, NaN])]\<rparr> \<and>
   length (adj_span ex_adj_cal (snd (get_adj_factor_raw ex_adj_query ''A,B,C'' 20170103 20170105))) \<noteq>
   length (sort (remdups (map trade_date (snd (get_adj_factor_raw ex_adj_query ''A,B,C'' 20170103 20170105))))) \<and>
   [20170103, 20170104, 20170105] =
     adj_span ex_adj_cal (snd (get_adj_factor_raw ex_adj_query ''A,B,C'' 20170103 20170105))"
proof -
  let ?p = "\<lparr>index = [20170103, 20170104, 20170105],
          cols = [(''A'', [Fin 1, Fin 1, Fin 2]), (''B'', [Fin 3, Fin 3, Fin 3]),
                  (''C'', [NaN, NaN, NaN])]\<rparr>"
  have run: "snd (get_adj_factor_daily ex_adj_cal ex_adj_query ''A,B,C'' 20170103 20170105 False) = Inr ?p"
    by code_simp
  have ne: "length (adj_span ex_adj_cal (snd (get_adj_factor_raw ex_adj_query ''A,B,C'' 20170103 20170105))) \<noteq>
   length (sort (remdups (map trade_date (snd (get_adj_factor_raw ex_adj_query ''A,B,C'' 20170103 20170105)))))"
    by code_simp
  from adj_factor_fill [OF run] ne
  have "index ?p = adj_span ex_adj_cal (snd (get_adj_factor_raw ex_adj_query ''A,B,C'' 20170103 20170105))"
    by blast
  then have "[20170103, 20170104, 20170105] =
     adj_span ex_adj_cal (snd (get_adj_factor_raw ex_adj_query ''A,B,C'' 20170103 20170105))"
    by simp
  with run ne show ?thesis by (intro conjI)
qed

text \<open>
  Against C5 as stated: every trading date of the span is observed, so nothing is
  reindexed, and the cell of \<open>B\<close> on 20170104 stays unfilled although \<open>B\<close> has a
  factor on 20170103: no forward fill is applied and an unfilled cell remains.
\<close>

theorem adj_factor_fill_counterexample:
  "get_adj_factor_daily ex_adj_cal ex_adj_gap_query ''A,B'' 20170103 20170105 False =
     ([], Inr \<lparr>index = [20170103, 20170104, 20170105],
               cols = [(''A'', [Fin 1, Fin 1, Fin 2]), (''B'', [Fin 1, NaN, Fin 3])]\<rparr>)"
  by code_simp

lemma div_shift_nth:
  "length (div_shift xs) = length xs \<and>
   (\<forall>i<length xs. div_shift xs ! i =
      (if i = 0 then Fin 1
       else if isnan (float_div (xs ! i) (xs ! (i - 1))) then Fin 1
       else float_div (xs ! i) (xs ! (i - 1))))"
proof (cases xs rule: rev_cases)
  case Nil
  then show ?thesis by (simp add: div_shift_def shift1_def fillna_def)
next
  case (snoc ys y)
  have sh: "shift1 xs = NaN # ys" by (simp add: snoc shift1_def)
  have len: "length (div_shift xs) = length xs"
    unfolding div_shift_def fillna_def sh by (simp add: snoc)
  have "div_shift xs ! i =
      (if i = 0 then Fin 1
       else if isnan (float_div (xs ! i) (xs ! (i - 1))) then Fin 1
       else float_div (xs ! i) (xs ! (i - 1)))" if i: "i < length xs" for i
  proof (cases i)
    case 0
    have "float_div (xs ! 0) NaN = NaN" by (cases "xs ! 0") simp_all
    with i 0 show ?thesis
      unfolding div_shift_def fillna_def sh by (simp add: snoc)
  next
    case (Suc j)
    with i have j: "j < length ys" by (simp add: snoc)
    then have "xs ! j = ys ! j" by (simp add: snoc nth_append)
    with i Suc j show ?thesis
      unfolding div_shift_def fillna_def sh by (simp add: snoc)
  qed
  with len show ?thesis by blast
qed

text \<open>
  C2, as the code has it. With \<^verbatim>\<open>div=True\<close> the panel keeps its rows and columns, the
  first row is 1.0 for every entity, and every later cell is the factor at that row divided
  by the factor at the previous row of the same entity, replaced by 1.0 when that quotient
  is NaN: when either factor is unfilled or both are zero. A non-zero factor over a zero
  factor is an infinity and stays.
\<close>

theorem adj_factor_ratio:
  assumes run: "snd (get_adj_factor_daily cal query symbol start_date end_date False) = Inr p"
  shows "\<exists>q. snd (get_adj_factor_daily cal query symbol start_date end_date True) = Inr q \<and>
           index q = index p \<and> columns q = columns p \<and>
           list_all2 (\<lambda>cx cy. length (snd cy) = length (snd cx) \<and>
               (\<forall>i<length (snd cx). snd cy ! i =
                  (if i = 0 then Fin 1
                   else if isnan (float_div (snd cx ! i) (snd cx ! (i - 1))) then Fin 1
                   else float_div (snd cx ! i) (snd cx ! (i - 1)))))
             (cols p) (cols q) \<and>
           isnan (float_div x NaN) \<and> isnan (float_div NaN y) \<and> isnan (float_div (Fin 0) (Fin 0)) \<and>
           (b \<noteq> 0 \<longrightarrow> float_div (Fin a) (Fin b) = Fin (a / b)) \<and>
           (a \<noteq> 0 \<longrightarrow> float_div (Fin a) (Fin 0) = (if 0 < a then PInf else NInf))"
proof -
  from run have al: "adj_factor_aligned cal symbol (snd (get_adj_factor_raw query symbol start_date end_date)) = Inr p"
    by (simp add: adj_daily_False)
  have q: "snd (get_adj_factor_daily cal query symbol start_date end_date True) = Inr (map_cols div_shift p)"
    by (simp add: adj_daily_True al)
  have cells: "list_all2 (\<lambda>cx cy. length (snd cy) = length (snd cx) \<and>
               (\<forall>i<length (snd cx). snd cy ! i =
                  (if i = 0 then Fin 1
                   else if isnan (float_div (snd cx ! i) (snd cx ! (i - 1))) then Fin 1
                   else float_div (snd cx ! i) (snd cx ! (i - 1)))))
             (cols p) (cols (map_cols div_shift p))"
    unfolding map_cols_def list_all2_conv_all_nth using div_shift_nth by simp
  have nan1: "isnan (float_div x NaN)" by (cases x) simp_all
  have nan2: "isnan (float_div NaN y)" by simp
  have "index (map_cols div_shift p) = index p" "columns (map_cols div_shift p) = columns p"
    by (simp_all add: map_cols_def columns_def comp_def)
  with q cells nan1 nan2 show ?thesis by simp
qed

theorem adj_factor_ratio_witness:
  "snd (get_adj_factor_daily ex_adj_cal ex_adj_query ''A,B,C'' 20170103 20170105 False) =
     Inr \<lparr>index = [20170103, 20170104, 20170105],
          cols = [(''A'', [Fin 1, Fin 1, Fin 2]), (''B'', [Fin 3, Fin 3, Fin 3]),
                  (''C'', [NaN, NaN, NaN])]\<rparr> \<and>
   (\<exists>q. snd (get_adj_factor_daily ex_adj_cal ex_adj_query ''A,B,C'' 20170103 20170105 True) = Inr q \<and>
        index q = [20170103, 20170104, 20170105] \<and> columns q = [''A'', ''B'', ''C''])"
proof -
  let ?p = "\<lparr>index = [20170103, 20170104, 20170105],
          cols = [(''A'', [Fin 1, Fin 1, Fin 2]), (''B'', [Fin 3, Fin 3, Fin 3]),
                  (''C'', [NaN, NaN, NaN])]\<rparr>"
  have run: "snd (get_adj_factor_daily ex_adj_cal ex_adj_query ''A,B,C'' 20170103 20170105 False) = Inr ?p"
    by code_simp
  from adj_factor_ratio [OF run] obtain q where
    q: "snd (get_adj_factor_daily ex_adj_cal ex_adj_query ''A,B,C'' 20170103 20170105 True) = Inr q"
       "index q = index ?p" "columns q = columns ?p"
    by blast
  from q(2) have i: "index q = [20170103, 20170104, 20170105]" by simp
  from q(3) have c: "columns q = [''A'', ''B'', ''C'']" by (simp add: columns_def)
  from q(1) i c have "\<exists>q. snd (get_adj_factor_daily ex_adj_cal ex_adj_query ''A,B,C'' 20170103 20170105 True) = Inr q \<and>
        index q = [20170103, 20170104, 20170105] \<and> columns q = [''A'', ''B'', ''C'']"
    by (intro exI conjI)
  with run show ?thesis by (intro conjI)
qed

text \<open>
  Against C2 as stated: the factor 2 on 20170104 over the factor 0 on 20170103 gives an
  infinity, not 1.0.
\<close>

theorem adj_factor_ratio_counterexample:
  "get_adj_factor_daily ex_adj_cal ex_adj_zero_query ''A'' 20170103 20170104 True =
     ([], Inr \<lparr>index = [20170103, 20170104], cols = [(''A'', [Fin 1, PInf])]\<rparr>)"
  by code_simp

lemma sorted_distinct_sublist_eq:
  assumes "sorted xs" "distinct xs" "sorted ys" "distinct ys" "set xs \<subseteq> set ys" "length xs = length ys"
  shows "xs = ys"
proof -
  have "card (set xs) = card (set ys)"
    using assms by (simp add: distinct_card)
  with assms(5) have "set xs = set ys"
    by (simp add: card_subset_eq)
  with assms show ?thesis by (simp add: sorted_distinct_set_unique)
qed

lemma adj_daily_index:
  "snd (get_adj_factor_daily cal query symbol start_date end_date do_div) = Inr p \<Longrightarrow>
   \<exists>p'. snd (get_adj_factor_daily cal query symbol start_date end_date False) = Inr p' \<and> index p = index p'"
  by (cases do_div; cases "adj_factor_aligned cal symbol (snd (get_adj_factor_raw query symbol start_date end_date))")
     (auto simp: adj_daily_True adj_daily_False map_cols_def)

text \<open>
  C9, as the code has it. When the calendar is ascending without repetition and every
  fetched trade date is a trading date, then, whatever \<^verbatim>\<open>div\<close> is, the row axis of the
  panel of \<^verbatim>\<open>get_adj_factor_daily\<close> is the list of trading dates from the minimum to the
  maximum trade date of the fetched records. The requested \<open>start_date\<close> and \<open>end_date\<close>
  do not bound it: every fetched trade date is a row, so records beyond the requested
  window give rows outside it.
\<close>

theorem adj_factor_axis:
  assumes run: "snd (get_adj_factor_daily cal query symbol start_date end_date do_div) = Inr p"
      and cal: "sorted cal" "distinct cal"
      and obs: "set (map trade_date (fst (query symbol start_date end_date))) \<subseteq> set cal"
  shows "index p = adj_span cal (fst (query symbol start_date end_date)) \<and>
         (\<forall>r\<in>set (fst (query symbol start_date end_date)). trade_date r \<in> set (index p)) \<and>
         ((\<exists>r\<in>set (fst (query symbol start_date end_date)).
              trade_date r < start_date \<or> end_date < trade_date r) \<longrightarrow>
          (\<exists>d\<in>set (index p). d < start_date \<or> end_date < d))"
proof -
  let ?rows = "fst (query symbol start_date end_date)"
  let ?df = "snd (get_adj_factor_raw query symbol start_date end_date)"
  have df: "?df = drop_duplicates ?rows"
    by (simp add: get_adj_factor_raw_def split_beta)
  then have sets: "set (map trade_date ?df) = set (map trade_date ?rows)"
    by (simp add: set_drop_duplicates)
  then have span: "adj_span cal ?df = adj_span cal ?rows"
    by (simp add: adj_span_def)
  let ?T = "set (map trade_date ?rows)"
  let ?idx = "sort (remdups (map trade_date ?df))"
  from adj_daily_index [OF run] obtain p' where
    p': "snd (get_adj_factor_daily cal query symbol start_date end_date False) = Inr p'" "index p = index p'"
    by blast
  then have al: "adj_factor_aligned cal symbol ?df = Inr p'"
    by (simp add: adj_daily_False)
  note ch = adj_factor_aligned_Inr [OF al]
  then have ne: "?rows \<noteq> []" using df by (auto simp: drop_duplicates_def)
  have fin: "finite ?T" "?T \<noteq> {}" using ne by auto
  have in_span: "d \<in> set (adj_span cal ?rows)" if "d \<in> ?T" for d
    using that obs fin by (auto simp: adj_span_def get_trade_date_range_def)
  have idx_sub: "set ?idx \<subseteq> set (adj_span cal ?df)"
    using in_span sets span by auto
  have "index p' = adj_span cal ?df"
  proof (cases "length (adj_span cal ?df) \<noteq> length ?idx")
    case True
    with ch show ?thesis by simp
  next
    case False
    then have len: "length ?idx = length (adj_span cal ?df)" by simp
    have "?idx = adj_span cal ?df"
    proof (rule sorted_distinct_sublist_eq [OF _ _ _ _ idx_sub len])
      show "sorted (adj_span cal ?df)" "distinct (adj_span cal ?df)"
        using cal by (simp_all add: adj_span_def get_trade_date_range_def sorted_wrt_filter)
    qed simp_all
    with False ch show ?thesis by simp
  qed
  with p' span have idx: "index p = adj_span cal ?rows" by simp
  have all: "\<forall>r\<in>set ?rows. trade_date r \<in> set (index p)"
    using in_span idx by auto
  then have "(\<exists>r\<in>set ?rows. trade_date r < start_date \<or> end_date < trade_date r) \<longrightarrow>
          (\<exists>d\<in>set (index p). d < start_date \<or> end_date < d)"
    by blast
  with idx all show ?thesis by blast
qed


theorem adj_factor_axis_witness:
  "snd (get_adj_factor_daily ex_adj_cal ex_adj_query ''A,B,C'' 20170104 20170104 False) =
     Inr \<lparr>index = [20170103, 20170104, 20170105],
          cols = [(''A'', [Fin 1, Fin 1, Fin 2]), (''B'', [Fin 3, Fin 3, Fin 3]),
                  (''C'', [NaN, NaN, NaN])]\<rparr> \<and>
   sorted ex_adj_cal \<and> distinct ex_adj_cal \<and>
   set (map trade_date (fst (ex_adj_query ''A,B,C'' 20170104 20170104))) \<subseteq> set ex_adj_cal \<and>
   (\<exists>r\<in>set (fst (ex_adj_query ''A,B,C'' 20170104 20170104)).
       trade_date r < 20170104 \<or> 20170104 < trade_date r) \<and>
   (\<exists>d\<in>set [20170103, 20170104, 20170105 :: int]. d < 20170104 \<or> 20170104 < d)"
proof -
  let ?p = "\<lparr>index = [20170103, 20170104, 20170105],
          cols = [(''A'', [Fin 1, Fin 1, Fin 2]), (''B'', [Fin 3, Fin 3, Fin 3]),
                  (''C'', [NaN, NaN, NaN])]\<rparr>"
  have run: "snd (get_adj_factor_daily ex_adj_cal ex_adj_query ''A,B,C'' 20170104 20170104 False) = Inr ?p"
    by code_simp
  have s: "sorted ex_adj_cal" and d: "distinct ex_adj_cal"
    by (simp_all add: ex_adj_cal_def)
  have obs: "set (map trade_date (fst (ex_adj_query ''A,B,C'' 20170104 20170104))) \<subseteq> set ex_adj_cal"
    by (simp add: ex_adj_query_def ex_adj_cal_def)
  have out: "\<exists>r\<in>set (fst (ex_adj_query ''A,B,C'' 20170104 20170104)).
       trade_date r < 20170104 \<or> 20170104 < trade_date r"
    by (simp add: ex_adj_query_def)
  from adj_factor_axis [OF run s d obs] out
  have "\<exists>d\<in>set (index ?p). d < 20170104 \<or> 20170104 < d"
    by blast
  then have "\<exists>d\<in>set [20170103, 20170104, 20170105]. d < (20170104::int) \<or> 20170104 < d"
    by simp
  with run s d obs out show ?thesis by (intro conjI)
qed


text \<open>
  Against C9 as stated: a fetched trade date that is no trading date. With the dates
  20170103, 20170104 and 20170106 the span has three trading dates as well, nothing is
  reindexed, and the row axis is the fetched dates, not the trading dates of the span.
  With the dates 20170104 and 20170105 fetched for the window from 20170105 to 20170106
  the panel is reindexed onto the one trading date of the span: a record lies before the
  window and no row lies outside it.
\<close>

theorem adj_factor_axis_counterexample:
  "snd (get_adj_factor_daily ex_adj_skip_cal ex_adj_offcal_query ''A'' 20170103 20170106 False) =
     Inr \<lparr>index = [20170103, 20170104, 20170106], cols = [(''A'', [Fin 1, Fin 2, Fin 3])]\<rparr> \<and>
   adj_span ex_adj_skip_cal (fst (ex_adj_offcal_query ''A'' 20170103 20170106)) =
     [20170103, 20170105, 20170106] \<and>
   snd (get_adj_factor_daily ex_adj_skip_cal ex_adj_before_query ''A'' 20170105 20170106 False) =
     Inr \<lparr>index = [20170105], cols = [(''A'', [Fin 3])]\<rparr> \<and>
   map trade_date (fst (ex_adj_before_query ''A'' 20170105 20170106)) = [20170104, 20170105]"
  by code_simp

section \<open>Properties of \<^verbatim>\<open>get_industry_daily\<close>\<close>


lemma ffill_from_keeps:
  "i < length xs \<Longrightarrow> xs ! i \<noteq> na \<Longrightarrow> ffill_from na prev xs ! i = xs ! i"
proof (induction xs arbitrary: prev i)
  case Nil
  then show ?case by simp
next
  case (Cons x xs)
  then show ?case by (cases i) auto
qed

lemma bfill_keeps:
  assumes "i < length xs" "xs ! i \<noteq> na"
  shows "bfill na xs ! i = xs ! i"
proof -
  let ?k = "length xs - Suc i"
  from assms(1) have k: "?k < length (rev xs)" by simp
  from assms have "rev xs ! ?k \<noteq> na" by (simp add: rev_nth)
  with k have "ffill_from na na (rev xs) ! ?k = rev xs ! ?k" by (rule ffill_from_keeps)
  with assms(1) show ?thesis
    by (simp add: bfill_def ffill_def rev_nth length_ffill_from)
qed

lemma ffill_from_replicate: "x \<noteq> na \<Longrightarrow> ffill_from na x (replicate m na) = replicate m x"
  by (induction m) auto

lemma ffill_from_tail:
  "x \<noteq> na \<Longrightarrow> ffill_from na prev (ps @ x # replicate m na) = ffill_from na prev ps @ x # replicate m x"
  by (induction ps arbitrary: prev) (auto simp: ffill_from_replicate)

lemma bfill_leading:
  assumes "x \<noteq> na"
  shows "bfill na (replicate m na @ x # qs) = replicate m x @ x # bfill na qs"
proof -
  have "rev (replicate m na @ x # qs) = rev qs @ x # replicate m na" by simp
  then show ?thesis
    using assms by (simp add: bfill_def ffill_def ffill_from_tail)
qed

lemma leading_decomp:
  assumes "j < length xs" "\<forall>k<j. xs ! k = na"
  shows "xs = replicate j na @ xs ! j # drop (Suc j) xs"
proof -
  have "take j xs = replicate j na"
    using assms by (intro nth_equalityI) auto
  with id_take_nth_drop [OF assms(1)] show ?thesis by simp
qed

lemma bfill_leading_nth:
  assumes j: "j < length xs" and v: "xs ! j \<noteq> na" and lead: "\<forall>k<j. xs ! k = na" and i: "i \<le> j"
  shows "bfill na xs ! i = xs ! j"
proof -
  from leading_decomp [OF j lead] have "bfill na xs = bfill na (replicate j na @ xs ! j # drop (Suc j) xs)"
    by simp
  also have "\<dots> = replicate j (xs ! j) @ xs ! j # bfill na (drop (Suc j) xs)"
    using v by (rule bfill_leading)
  finally have eq: "bfill na xs = replicate j (xs ! j) @ xs ! j # bfill na (drop (Suc j) xs)" .
  from i show ?thesis unfolding eq by (cases "i < j") (auto simp: nth_append)
qed

lemma bfill_all_na: "\<forall>x\<in>set xs. x = na \<Longrightarrow> bfill na xs = xs"
proof -
  assume a: "\<forall>x\<in>set xs. x = na"
  then have "ffill_from na na (rev xs) = rev xs" by (intro ffill_from_all_na) simp
  then show ?thesis by (simp add: bfill_def ffill_def)
qed

lemma length_bfill: "length (bfill na xs) = length xs"
  by (simp add: bfill_def ffill_def length_ffill_from)

lemma industry_daily_Inr:
  assumes "snd (get_industry_daily cal query symbol start_date end_date src_type level) = Inr p"
  shows "\<exists>df_raw a. snd (get_industry_raw query symbol src_type level) = Inr df_raw \<and>
           industry_aligned cal symbol start_date end_date df_raw = Inr a \<and>
           p = map_cols (map pystr) (map_cols (bfill None) a)"
  using assms
  by (cases "get_industry_raw query symbol src_type level")
     (auto simp: get_industry_daily_def split: sum.splits)

lemma industry_post_col:
  "length (map pystr (bfill None xs)) = length xs \<and>
   (\<forall>i<length xs. \<forall>v. xs ! i = Some v \<longrightarrow> map pystr (bfill None xs) ! i = v) \<and>
   (\<forall>j<length xs. \<forall>v. xs ! j = Some v \<and> (\<forall>k<j. xs ! k = None) \<longrightarrow>
        (\<forall>i\<le>j. map pystr (bfill None xs) ! i = v)) \<and>
   ((\<forall>x\<in>set xs. x = None) \<longrightarrow> (\<forall>y\<in>set (map pystr (bfill None xs)). y = ''nan''))"
proof (intro conjI allI impI)
  show "length (map pystr (bfill None xs)) = length xs" by (simp add: length_bfill)
next
  fix i v assume "i < length xs" "xs ! i = Some v"
  then show "map pystr (bfill None xs) ! i = v"
    by (simp add: length_bfill bfill_keeps)
next
  fix j v i assume j: "j < length xs" and h: "xs ! j = Some v \<and> (\<forall>k<j. xs ! k = None)" and i: "i \<le> j"
  from h have "xs ! j \<noteq> None" "\<forall>k<j. xs ! k = None" by simp_all
  from bfill_leading_nth [OF j this i] h have "bfill None xs ! i = Some v" by simp
  with i j show "map pystr (bfill None xs) ! i = v" by (simp add: length_bfill)
next
  assume "\<forall>x\<in>set xs. x = None"
  then have "bfill None xs = xs" by (rule bfill_all_na)
  with \<open>\<forall>x\<in>set xs. x = None\<close> show "\<forall>y\<in>set (map pystr (bfill None xs)). y = ''nan''" by auto
qed

text \<open>
  What the two post-steps do to the aligned panel, with the same rows and columns: a filled
  cell shows its code, every cell up to the first filled cell of a column shows the code
  of that first filled cell, and every cell is a text, \<^verbatim>\<open>'nan'\<close> throughout a column that
  is unfilled throughout.
\<close>

lemma industry_post_steps:
  assumes run: "snd (get_industry_daily cal query symbol start_date end_date src_type level) = Inr p"
  shows "\<exists>df_raw a. snd (get_industry_raw query symbol src_type level) = Inr df_raw \<and>
           industry_aligned cal symbol start_date end_date df_raw = Inr a \<and>
           index p = index a \<and> columns p = columns a \<and>
           list_all2 (\<lambda>cx cy. length (snd cy) = length (snd cx) \<and>
               (\<forall>i<length (snd cx). \<forall>v. snd cx ! i = Some v \<longrightarrow> snd cy ! i = v) \<and>
               (\<forall>j<length (snd cx). \<forall>v. snd cx ! j = Some v \<and> (\<forall>k<j. snd cx ! k = None) \<longrightarrow>
                    (\<forall>i\<le>j. snd cy ! i = v)) \<and>
               ((\<forall>x\<in>set (snd cx). x = None) \<longrightarrow> (\<forall>y\<in>set (snd cy). y = ''nan'')))
             (cols a) (cols p)"
proof -
  from industry_daily_Inr [OF run] obtain df_raw a where
    raw: "snd (get_industry_raw query symbol src_type level) = Inr df_raw" and
    al: "industry_aligned cal symbol start_date end_date df_raw = Inr a" and
    p: "p = map_cols (map pystr) (map_cols (bfill None) a)"
    by blast
  have cp: "cols p = map (\<lambda>cx. (fst cx, map pystr (bfill None (snd cx)))) (cols a)"
    by (simp add: p map_cols_def comp_def)
  have "index p = index a" "columns p = columns a"
    by (simp_all add: p map_cols_def columns_def comp_def)
  moreover have "list_all2 (\<lambda>cx cy. length (snd cy) = length (snd cx) \<and>
               (\<forall>i<length (snd cx). \<forall>v. snd cx ! i = Some v \<longrightarrow> snd cy ! i = v) \<and>
               (\<forall>j<length (snd cx). \<forall>v. snd cx ! j = Some v \<and> (\<forall>k<j. snd cx ! k = None) \<longrightarrow>
                    (\<forall>i\<le>j. snd cy ! i = v)) \<and>
               ((\<forall>x\<in>set (snd cx). x = None) \<longrightarrow> (\<forall>y\<in>set (snd cy). y = ''nan'')))
             (cols a) (cols p)"
    unfolding cp list_all2_map2
    apply (rule list_all2_refl)
    apply (simp only: snd_conv)
    apply (rule industry_post_col)
    done
  ultimately show ?thesis using raw al by blast
qed




text \<open>
  C7 at a failing input. The comment at the back fill says that, before a classification
  is available, an entity is assumed to belong to its first group. \<open>A\<close> is classified
  \<open>a\<close> on 20200110 and \<open>b\<close> on 20200111, and the trading dates are 20200105 and
  20200112. The aligned column of \<open>A\<close> is unfilled on 20200105 and shows \<open>b\<close>, the
  classification in force, on 20200112; the back fill copies \<open>b\<close> to 20200105. The
  earliest known classification of \<open>A\<close> is \<open>a\<close>.
\<close>

theorem industry_backfill_not_earliest:
  "snd (get_industry_daily ex_ind_gap_cal ex_ind_query ''A,B'' 20200101 20200131 ''SW'' 1) =
     Inr \<lparr>index = [20200105, 20200112],
          cols = [(''A'', [''b'', ''b'']), (''B'', [''x'', ''x''])]\<rparr> \<and>
   industry_aligned ex_ind_gap_cal ''A,B'' 20200101 20200131
       (projr (snd (get_industry_raw ex_ind_query ''A,B'' ''SW'' 1))) =
     Inr \<lparr>index = [20200105, 20200112],
          cols = [(''A'', [None, Some ''b'']), (''B'', [Some ''x'', Some ''x''])]\<rparr> \<and>
   map (\<lambda>r. (ind_in_date r, industry_code r))
       (sort_key ind_in_date (filter (\<lambda>r. ind_symbol r = ''A'') (fst (ex_ind_query ''A,B'' ''SW'' 1)))) =
     [(20200110, ''a''), (20200111, ''b'')]"
  by code_simp

lemma loc_set_labels:
  assumes "loc_set tgt src = Inr rf"
  shows "index rf = index tgt \<and> map fst (cols rf) = map fst (cols tgt)"
proof -
  from assms have "rf = \<lparr>index = index tgt,
                cols = map (\<lambda>cx. (fst cx,
                         case map_of (cols src) (fst cx) of
                           None \<Rightarrow> snd cx
                         | Some ys \<Rightarrow>
                             map (\<lambda>dx. case map_of (zip (index src) ys) (fst dx) of
                                         None \<Rightarrow> snd dx
                                       | Some y \<Rightarrow> y)
                               (zip (index tgt) (snd cx))))
                       (cols tgt)\<rparr>"
    by (simp add: loc_set_def split: if_splits)
  then show ?thesis by (simp add: comp_def)
qed

lemma loc_set_untouched:
  assumes ls: "loc_set tgt src = Inr rf" and cx: "cx \<in> set (cols rf)" and c: "fst cx \<notin> set (columns src)"
  shows "cx \<in> set (cols tgt)"
proof -
  from ls have rf: "cols rf = map (\<lambda>cx. (fst cx,
                         case map_of (cols src) (fst cx) of
                           None \<Rightarrow> snd cx
                         | Some ys \<Rightarrow>
                             map (\<lambda>dx. case map_of (zip (index src) ys) (fst dx) of
                                         None \<Rightarrow> snd dx
                                       | Some y \<Rightarrow> y)
                               (zip (index tgt) (snd cx))))
                       (cols tgt)"
    by (auto simp: loc_set_def split: if_splits)
  from cx obtain cy where cy: "cy \<in> set (cols tgt)" and
    eq: "cx = (fst cy, case map_of (cols src) (fst cy) of
                           None \<Rightarrow> snd cy
                         | Some ys \<Rightarrow>
                             map (\<lambda>dx. case map_of (zip (index src) ys) (fst dx) of
                                         None \<Rightarrow> snd dx
                                       | Some y \<Rightarrow> y)
                               (zip (index tgt) (snd cy)))"
    unfolding rf by auto
  from eq have "fst cx = fst cy" by simp
  with c have "map_of (cols src) (fst cy) = None"
    by (simp add: columns_def map_of_eq_None_iff)
  with eq have "cx = cy" by simp
  with cy show ?thesis by simp
qed

lemma concat_series_columns:
  "concat_series dic na = Inr res \<Longrightarrow> columns res = map fst dic"
  by (auto simp: concat_series_def columns_def comp_def split: if_splits)

lemma zip_same_labels:
  "map fst xs = map fst ys \<Longrightarrow> va \<in> set (zip xs ys) \<Longrightarrow> fst (fst va) = fst (snd va)"
proof (induction xs arbitrary: ys)
  case Nil
  then show ?case by simp
next
  case (Cons x xs)
  then show ?case by (cases ys) auto
qed

lemma zip_first_labels:
  "length xs = length ys \<Longrightarrow> map (\<lambda>va. fst (fst va)) (zip xs ys) = map fst xs"
  by (induction xs ys rule: list_induct2) auto

lemma align_cell_unannounced: "\<forall>a\<in>set anns. a = None \<Longrightarrow> align_cell vals anns d = None"
proof -
  assume a: "\<forall>a\<in>set anns. a = None"
  have "filter (\<lambda>va. case snd va of Some t \<Rightarrow> t \<le> d | None \<Rightarrow> False) (zip vals anns) = []"
    using a by (fastforce simp: filter_empty_conv dest: set_zip_rightD)
  then show ?thesis by (simp add: align_cell_def)
qed

lemma ind_dic_keys: "set (map fst (ind_dic df)) = set (map ind_symbol df)"
  by (simp add: ind_dic_def group_df_to_dict_def comp_def set_group_keys)

text \<open>
  C10. In the panel of \<^verbatim>\<open>get_industry_daily\<close> a requested symbol for which the fetch
  returned no record is a column all the same, with one cell per trading date, and every
  cell of it is the text \<^verbatim>\<open>'nan'\<close>.
\<close>

theorem industry_recordless_nan:
  assumes run: "snd (get_industry_daily cal query symbol start_date end_date src_type level) = Inr p"
      and req: "c \<in> set (split_sep CHR '','' symbol)"
      and norec: "c \<notin> set (map ind_symbol (fst (query symbol src_type level)))"
  shows "c \<in> set (columns p) \<and>
         (\<forall>cx\<in>set (cols p). fst cx = c \<longrightarrow>
            length (snd cx) = length (index p) \<and> (\<forall>x\<in>set (snd cx). x = ''nan''))"
proof -
  from industry_daily_Inr [OF run] obtain df_raw a where
    raw: "snd (get_industry_raw query symbol src_type level) = Inr df_raw" and
    al: "industry_aligned cal symbol start_date end_date df_raw = Inr a" and
    p: "p = map_cols (map pystr) (map_cols (bfill None) a)"
    by blast
  from raw have "df_raw = drop_duplicates (fst (query symbol src_type level))"
    by (auto simp: get_industry_raw_def split_beta split: if_splits)
  with norec have c_new: "c \<notin> set (map ind_symbol df_raw)"
    by (simp add: set_drop_duplicates)
  let ?dates = "get_trade_date_range cal start_date end_date"
  let ?cs = "sort (split_sep CHR '','' symbol)"
  let ?ann_dic = "map (\<lambda>kv. (fst kv, position_series ind_in_date (snd kv))) (ind_dic df_raw)"
  let ?idx = "unique_index ?ann_dic"
  from al obtain df_ann_tmp df_value_tmp df_ann df_value where
    cat: "concat_series ?ann_dic None = Inr df_ann_tmp" and
    la: "loc_set (new_frame ?idx ?cs None) df_ann_tmp = Inr df_ann" and
    lv: "loc_set (new_frame ?idx ?cs None) df_value_tmp = Inr df_value" and
    a: "a = align df_value df_ann ?dates"
    by (auto simp: industry_aligned_def Let_def split: sum.splits)
  have la_lab: "map fst (cols df_ann) = ?cs" and lv_lab: "map fst (cols df_value) = ?cs"
    using loc_set_labels [OF la] loc_set_labels [OF lv] by (simp_all add: new_frame_def comp_def)
  then have len: "length (cols df_value) = length (cols df_ann)"
    by (metis length_map)
  have cols_a: "cols a = map (\<lambda>va. (fst (fst va), map (align_cell (snd (fst va)) (snd (snd va))) ?dates))
               (zip (cols df_value) (cols df_ann))"
    by (simp add: a align_def)
  have "columns a = ?cs"
    using zip_first_labels [OF len] lv_lab by (simp add: columns_def cols_a comp_def)
  then have columns_p: "columns p = ?cs"
    by (simp add: p map_cols_def columns_def comp_def)
  have tmp_cols: "set (columns df_ann_tmp) = set (map ind_symbol df_raw)"
    using concat_series_columns [OF cat] by (simp add: comp_def ind_dic_keys [simplified])
  have cells: "length (snd cx) = length (index p) \<and> (\<forall>x\<in>set (snd cx). x = ''nan'')"
    if cx: "cx \<in> set (cols p)" and lab: "fst cx = c" for cx
  proof -
    from cx obtain ca where ca: "ca \<in> set (cols a)" and
      cx_eq: "cx = (fst ca, map pystr (bfill None (snd ca)))"
      by (auto simp: p map_cols_def)
    from ca obtain va where va: "va \<in> set (zip (cols df_value) (cols df_ann))" and
      ca_eq: "ca = (fst (fst va), map (align_cell (snd (fst va)) (snd (snd va))) ?dates)"
      unfolding cols_a by auto
    from zip_same_labels [OF _ va] la_lab lv_lab have "fst (snd va) = fst (fst va)" by simp
    with lab cx_eq ca_eq have lab_ann: "fst (snd va) = c" by simp
    have in_ann: "snd va \<in> set (cols df_ann)"
      using va set_zip_rightD [of "fst va" "snd va" "cols df_value" "cols df_ann"] by simp
    from lab_ann c_new tmp_cols have "fst (snd va) \<notin> set (columns df_ann_tmp)" by simp
    from loc_set_untouched [OF la in_ann this]
    have "snd (snd va) = replicate (length ?idx) None"
      by (auto simp: new_frame_def)
    then have "align_cell (snd (fst va)) (snd (snd va)) d = None" for d
      by (intro align_cell_unannounced) simp
    then have col: "snd ca = map (\<lambda>d. None) ?dates"
      by (simp add: ca_eq)
    then have "bfill None (snd ca) = snd ca"
      by (intro bfill_all_na) simp
    with col cx_eq have "snd cx = map (\<lambda>d. ''nan'') ?dates" by simp
    moreover have "index p = ?dates" by (simp add: p a map_cols_def align_def)
    ultimately show ?thesis by simp
  qed
  from req have "c \<in> set (columns p)" by (simp add: columns_p)
  with cells show ?thesis by blast
qed


theorem industry_recordless_nan_witness:
  "snd (get_industry_daily ex_ind_cal ex_ind_query ''B,A,C'' 20200101 20200131 ''SW'' 1) =
     Inr \<lparr>index = [20200105, 20200110, 20200112],
          cols = [(''A'', [''a'', ''a'', ''b'']), (''B'', [''x'', ''x'', ''x'']),
                  (''C'', [''nan'', ''nan'', ''nan''])]\<rparr> \<and>
   ''C'' \<in> set (split_sep CHR '','' ''B,A,C'') \<and>
   ''C'' \<notin> set (map ind_symbol (fst (ex_ind_query ''B,A,C'' ''SW'' 1))) \<and>
   ''C'' \<in> set (columns \<lparr>index = [20200105, 20200110, 20200112],
          cols = [(''A'', [''a'', ''a'', ''b'']), (''B'', [''x'', ''x'', ''x'']),
                  (''C'', [''nan'', ''nan'', ''nan''])]\<rparr>)"
proof -
  let ?p = "\<lparr>index = [20200105, 20200110, 20200112],
          cols = [(''A'', [''a'', ''a'', ''b'']), (''B'', [''x'', ''x'', ''x'']),
                  (''C'', [''nan'', ''nan'', ''nan''])]\<rparr>"
  have run: "snd (get_industry_daily ex_ind_cal ex_ind_query ''B,A,C'' 20200101 20200131 ''SW'' 1) = Inr ?p"
    by code_simp
  have req: "''C'' \<in> set (split_sep CHR '','' ''B,A,C'')"
    by code_simp
  have norec: "''C'' \<notin> set (map ind_symbol (fst (ex_ind_query ''B,A,C'' ''SW'' 1)))"
    by (simp add: ex_ind_query_def)
  from industry_recordless_nan [OF run req norec] have "''C'' \<in> set (columns ?p)" ..
  with run req norec show ?thesis by (intro conjI)
qed


section \<open>Columns and messages of the four operations\<close>


lemma weights_loop_visits:
  assumes run: "weights_loop nxt query idx end_date td st = Some st'"
  shows "\<exists>tds. visits nxt end_date td tds \<and> st' = foldl (weights_step query idx) st tds"
proof (rule weights_loop.raw_induct
    [where P = "\<lambda>nxt query idx end_date td st st'.
       \<exists>tds. visits nxt end_date td tds \<and> st' = foldl (weights_step query idx) st tds", OF _ run])
  fix f :: "(int \<Rightarrow> int) \<Rightarrow> (string \<Rightarrow> int \<Rightarrow> weight_row list \<times> string) \<Rightarrow> string \<Rightarrow> int \<Rightarrow> int
     \<Rightarrow> weights_state \<Rightarrow> weights_state option"
  fix nxt query idx end_date td st y
  assume IH: "\<And>nxt query idx end_date td st y. f nxt query idx end_date td st = Some y \<Longrightarrow>
       \<exists>tds. visits nxt end_date td tds \<and> y = foldl (weights_step query idx) st tds"
    and eq: "(if end_date < td then Some st
              else f nxt query idx end_date (nxt td) (weights_step query idx st td)) = Some y"
  show "\<exists>tds. visits nxt end_date td tds \<and> y = foldl (weights_step query idx) st tds"
  proof (cases "end_date < td")
    case True
    with eq have "y = st" by simp
    with True show ?thesis by (intro exI [of _ "[]"]) simp
  next
    case False
    with eq have "f nxt query idx end_date (nxt td) (weights_step query idx st td) = Some y"
      by simp
    from IH [OF this] obtain tds where
      "visits nxt end_date (nxt td) tds" "y = foldl (weights_step query idx) (weights_step query idx st td) tds"
      by blast
    with False show ?thesis by (intro exI [of _ "td # tds"]) simp
  qed
qed

lemma visits_weights_loop:
  "visits nxt end_date td tds \<Longrightarrow>
   weights_loop nxt query idx end_date td st = Some (foldl (weights_step query idx) st tds)"
proof (induction tds arbitrary: td st)
  case Nil
  then show ?case by (simp add: weights_loop.simps)
next
  case (Cons t ts)
  then have "t = td" "\<not> td > end_date" "visits nxt end_date (nxt td) ts" by simp_all
  with Cons.IH [of "nxt td" "weights_step query idx st td"] show ?case
    by (subst weights_loop.simps) simp
qed

lemma visits_exist:
  assumes "\<forall>t. t < nxt t"
  shows "\<exists>tds. visits nxt end_date td tds"
proof (induction "nat (end_date + 1 - td)" arbitrary: td rule: less_induct)
  case less
  show ?case
  proof (cases "td > end_date")
    case True
    then show ?thesis by (intro exI [of _ "[]"]) simp
  next
    case False
    from assms have "td < nxt td" by simp
    with False have "nat (end_date + 1 - nxt td) < nat (end_date + 1 - td)" by simp
    from less [OF this] obtain tds where "visits nxt end_date (nxt td) tds" by blast
    with False show ?thesis by (intro exI [of _ "td # tds"]) simp
  qed
qed

lemma foldl_weights_step:
  "foldl (weights_step query idx) (printed, symbols_set, dic) tds =
     (printed @ concat (map (\<lambda>td. fst (get_index_weights query idx td)) tds),
      symbols_set @ concat (map (\<lambda>td. map fst (snd (get_index_weights query idx td))) tds),
      foldl (\<lambda>d td. AList.update td (snd (get_index_weights query idx td)) d) dic tds)"
  by (induction tds arbitrary: printed symbols_set dic) (simp_all add: weights_step_def split_beta)


lemma columns_new_frame: "columns (new_frame idx cs v) = cs"
  by (simp add: columns_def new_frame_def comp_def)

lemma columns_map_cols: "columns (map_cols f df) = columns df"
  by (simp add: columns_def map_cols_def comp_def)

lemma columns_frame_update: "columns (frame_update tgt other) = columns tgt"
  by (simp add: columns_def frame_update_def comp_def)

lemma columns_loc_rows: "columns (loc_rows a b df) = columns df"
  by (simp add: columns_def loc_rows_def comp_def)

lemma weights_daily_Some:
  assumes run: "get_index_weights_daily cal nxt query idx start_date end_date = Some (printed, Inr p)"
  shows "\<exists>tds. visits nxt (last (get_trade_date_range cal start_date end_date))
                  (hd (get_trade_date_range cal start_date end_date)) tds \<and>
               printed = concat (map (\<lambda>td. fst (get_index_weights query idx td)) tds) \<and>
               columns p = group_keys (concat (map (\<lambda>td. map fst (snd (get_index_weights query idx td))) tds))"
proof -
  let ?dates = "get_trade_date_range cal start_date end_date"
  from run have ne: "?dates \<noteq> []"
    by (auto simp: get_index_weights_daily_def Let_def split: if_splits)
  from run ne obtain symbols_set dic where
    loop: "weights_loop nxt query idx (last ?dates) (hd ?dates) ([], [], []) = Some (printed, symbols_set, dic)"
    by (auto simp: get_index_weights_daily_def Let_def split: option.splits)
  from run ne loop obtain merge0 where
    p: "p = loc_rows (hd ?dates) (last ?dates) (map_cols (ffill NaN)
            (frame_update (new_frame ?dates (group_keys symbols_set) NaN) (map_cols (fillna (Fin 0)) merge0)))"
    by (auto simp: get_index_weights_daily_def Let_def split: sum.splits)
  from weights_loop_visits [OF loop] obtain tds where
    v: "visits nxt (last ?dates) (hd ?dates) tds" and
    st: "(printed, symbols_set, dic) = foldl (weights_step query idx) ([], [], []) tds"
    by blast
  from st have "printed = concat (map (\<lambda>td. fst (get_index_weights query idx td)) tds)"
    and "symbols_set = concat (map (\<lambda>td. map fst (snd (get_index_weights query idx td))) tds)"
    by (simp_all add: foldl_weights_step)
  moreover have "columns p = group_keys symbols_set"
    by (simp add: p columns_loc_rows columns_map_cols columns_frame_update columns_new_frame)
  ultimately show ?thesis using v by blast
qed

lemma weights_symbols:
  "map fst (snd (get_index_weights query idx td)) =
   map w_symbol (fst (query (if idx = ''000300.SH'' then ''399300.SZ'' else idx) td))"
  by (simp add: get_index_weights_def split_beta comp_def)

lemma weights_loop_same_rows:
  assumes same: "\<forall>i td. fst (q' i td) = fst (q i td)"
      and loop: "weights_loop nxt q idx end_date td ([], [], []) = Some st"
  shows "\<exists>st'. weights_loop nxt q' idx end_date td ([], [], []) = Some st' \<and> snd st' = snd st"
proof -
  from weights_loop_visits [OF loop] obtain tds where
    v: "visits nxt end_date td tds" and st: "st = foldl (weights_step q idx) ([], [], []) tds"
    by blast
  from same have rows: "snd (get_index_weights q' idx t) = snd (get_index_weights q idx t)" for t
    by (simp add: get_index_weights_def split_beta)
  have "snd (foldl (weights_step q' idx) ([], [], []) tds) = snd (foldl (weights_step q idx) ([], [], []) tds)"
    by (simp add: foldl_weights_step rows)
  with visits_weights_loop [OF v, of q' idx "([], [], [])"] st show ?thesis by simp
qed

lemma weights_daily_same_rows:
  assumes same: "\<forall>i td. fst (q' i td) = fst (q i td)"
  shows "map_option snd (get_index_weights_daily cal nxt q' idx start_date end_date) =
         map_option snd (get_index_weights_daily cal nxt q idx start_date end_date)"
proof -
  let ?dates = "get_trade_date_range cal start_date end_date"
  let ?loop = "\<lambda>q. weights_loop nxt q idx (last ?dates) (hd ?dates) ([], [], [])"
  from same have same': "\<forall>i td. fst (q i td) = fst (q' i td)" by simp
  show ?thesis
  proof (cases "?loop q")
    case None
    have "?loop q' = None"
    proof (cases "?loop q'")
      case (Some st')
      from weights_loop_same_rows [OF same' Some] None show ?thesis by simp
    qed simp
    with None show ?thesis by (simp add: get_index_weights_daily_def Let_def)
  next
    case (Some st)
    from weights_loop_same_rows [OF same Some] obtain st' where
      st': "?loop q' = Some st'" "snd st' = snd st" by blast
    obtain pr sy dic where st_eq: "st = (pr, sy, dic)" by (cases st)
    with st'(2) obtain pr' where st'_eq: "st' = (pr', sy, dic)" by (cases st') auto
    show ?thesis
      by (simp add: get_index_weights_daily_def Let_def Some st'(1) st_eq st'_eq)
  qed
qed

lemma loc_set_subset:
  "loc_set tgt src = Inr rf \<Longrightarrow> set (columns src) \<subseteq> set (columns tgt)"
  by (simp add: loc_set_def split: if_splits)

lemma industry_columns:
  assumes run: "snd (get_industry_daily cal query symbol start_date end_date src_type level) = Inr p"
  shows "columns p = sort (split_sep CHR '','' symbol) \<and>
         set (map ind_symbol (fst (query symbol src_type level))) \<subseteq> set (columns p)"
proof -
  from industry_daily_Inr [OF run] obtain df_raw a where
    raw: "snd (get_industry_raw query symbol src_type level) = Inr df_raw" and
    al: "industry_aligned cal symbol start_date end_date df_raw = Inr a" and
    p: "p = map_cols (map pystr) (map_cols (bfill None) a)"
    by blast
  from raw have df: "df_raw = drop_duplicates (fst (query symbol src_type level))"
    by (auto simp: get_industry_raw_def split_beta split: if_splits)
  let ?dates = "get_trade_date_range cal start_date end_date"
  let ?cs = "sort (split_sep CHR '','' symbol)"
  let ?ann_dic = "map (\<lambda>kv. (fst kv, position_series ind_in_date (snd kv))) (ind_dic df_raw)"
  let ?idx = "unique_index ?ann_dic"
  from al obtain df_ann_tmp df_value_tmp df_ann df_value where
    cat: "concat_series ?ann_dic None = Inr df_ann_tmp" and
    la: "loc_set (new_frame ?idx ?cs None) df_ann_tmp = Inr df_ann" and
    lv: "loc_set (new_frame ?idx ?cs None) df_value_tmp = Inr df_value" and
    a: "a = align df_value df_ann ?dates"
    by (auto simp: industry_aligned_def Let_def split: sum.splits)
  have la_lab: "map fst (cols df_ann) = ?cs" and lv_lab: "map fst (cols df_value) = ?cs"
    using loc_set_labels [OF la] loc_set_labels [OF lv] by (simp_all add: new_frame_def comp_def)
  then have len: "length (cols df_value) = length (cols df_ann)"
    by (metis length_map)
  have "columns a = ?cs"
    using zip_first_labels [OF len] lv_lab by (simp add: columns_def a align_def comp_def)
  then have columns_p: "columns p = ?cs"
    by (simp add: p columns_map_cols)
  have "set (columns df_ann_tmp) = set (map ind_symbol df_raw)"
    using concat_series_columns [OF cat] by (simp add: comp_def ind_dic_keys [simplified])
  with loc_set_subset [OF la] have "set (map ind_symbol df_raw) \<subseteq> set ?cs"
    by (simp add: columns_new_frame)
  with columns_p df show ?thesis by (simp add: set_drop_duplicates)
qed

lemma adj_columns:
  assumes run: "snd (get_adj_factor_daily cal query symbol start_date end_date do_div) = Inr p"
  shows "columns p = sort (split_sep CHR '','' symbol) \<and>
         set (map adj_symbol (fst (query symbol start_date end_date))) \<subseteq> set (columns p)"
proof -
  let ?df = "snd (get_adj_factor_raw query symbol start_date end_date)"
  have df: "?df = drop_duplicates (fst (query symbol start_date end_date))"
    by (simp add: get_adj_factor_raw_def split_beta)
  obtain p' where al: "adj_factor_aligned cal symbol ?df = Inr p'" and cp: "columns p = columns p'"
    using run
    by (cases do_div; cases "adj_factor_aligned cal symbol ?df")
       (auto simp: adj_daily_True adj_daily_False columns_map_cols)
  from adj_factor_aligned_Inr [OF al] have
    sub: "set (map adj_symbol ?df) \<subseteq> set (sort (split_sep CHR '','' symbol))" and
    "columns p' = sort (split_sep CHR '','' symbol)"
    by (auto simp: columns_def comp_def split: if_splits)
  with cp df show ?thesis by (simp add: set_drop_duplicates)
qed

lemma comp_columns:
  assumes run: "snd (get_index_comp_df cal query idx start_date end_date) = Inr p"
  shows "columns p = group_keys (map comp_symbol (fst (query idx start_date end_date)))"
  using run
  by (auto simp: get_index_comp_df_def u_get_index_comp_def Let_def split_beta columns_def comp_def
           split: sum.splits)




lemma weights_daily_printed:
  assumes run: "get_index_weights_daily cal nxt query idx start_date end_date = Some (printed, r)"
  shows "(get_trade_date_range cal start_date end_date = [] \<and> printed = []) \<or>
         (\<exists>tds. visits nxt (last (get_trade_date_range cal start_date end_date))
                  (hd (get_trade_date_range cal start_date end_date)) tds \<and>
               printed = concat (map (\<lambda>td. fst (get_index_weights query idx td)) tds))"
proof (cases "get_trade_date_range cal start_date end_date = []")
  case True
  with run show ?thesis by (simp add: get_index_weights_daily_def)
next
  case False
  let ?dates = "get_trade_date_range cal start_date end_date"
  from run False obtain symbols_set dic where
    loop: "weights_loop nxt query idx (last ?dates) (hd ?dates) ([], [], []) = Some (printed, symbols_set, dic)"
    by (auto simp: get_index_weights_daily_def Let_def split: option.splits)
  from weights_loop_visits [OF loop] obtain tds where
    v: "visits nxt (last ?dates) (hd ?dates) tds" and
    st: "(printed, symbols_set, dic) = foldl (weights_step query idx) ([], [], []) tds"
    by blast
  from st have "printed = concat (map (\<lambda>td. fst (get_index_weights query idx td)) tds)"
    by (simp add: foldl_weights_step)
  with v show ?thesis by blast
qed

lemma weights_daily_returns:
  assumes "\<forall>t. t < nxt t"
  shows "\<exists>printed r. get_index_weights_daily cal nxt query idx start_date end_date = Some (printed, r)"
proof (cases "get_trade_date_range cal start_date end_date = []")
  case True
  then show ?thesis by (simp add: get_index_weights_daily_def)
next
  case False
  let ?dates = "get_trade_date_range cal start_date end_date"
  from visits_exist [OF assms] obtain tds where "visits nxt (last ?dates) (hd ?dates) tds" by blast
  from visits_weights_loop [OF this, of query idx "([], [], [])"] obtain st where
    "weights_loop nxt query idx (last ?dates) (hd ?dates) ([], [], []) = Some st" by blast
  with False show ?thesis
    by (cases st) (auto simp: get_index_weights_daily_def Let_def)
qed

text \<open>
  C3, as the code has it. The columns of the panel of \<^verbatim>\<open>get_index_comp_df\<close> are the
  distinct entity ids of the fetched rows, sorted, and those of \<^verbatim>\<open>get_index_weights_daily\<close>
  are the distinct entity ids of the rows of all fetched snapshots, sorted. The columns of
  the panels of \<^verbatim>\<open>get_industry_daily\<close> and \<^verbatim>\<open>get_adj_factor_daily\<close> are the requested
  symbols, sorted; every fetched entity id is among them.
\<close>

theorem panel_columns:
  "(snd (get_index_comp_df cal cq idx start_date end_date) = Inr p1 \<longrightarrow>
      columns p1 = group_keys (map comp_symbol (fst (cq idx start_date end_date)))) \<and>
   (get_index_weights_daily cal nxt wq idx start_date end_date = Some (printed, Inr p2) \<longrightarrow>
      (\<exists>tds. visits nxt (last (get_trade_date_range cal start_date end_date))
                 (hd (get_trade_date_range cal start_date end_date)) tds \<and>
              columns p2 = group_keys (concat (map
                (\<lambda>td. map w_symbol (fst (wq (if idx = ''000300.SH'' then ''399300.SZ'' else idx) td))) tds)))) \<and>
   (snd (get_industry_daily cal iq symbol start_date end_date src_type level) = Inr p3 \<longrightarrow>
      columns p3 = sort (split_sep CHR '','' symbol) \<and>
      set (map ind_symbol (fst (iq symbol src_type level))) \<subseteq> set (columns p3)) \<and>
   (snd (get_adj_factor_daily cal aq symbol start_date end_date do_div) = Inr p4 \<longrightarrow>
      columns p4 = sort (split_sep CHR '','' symbol) \<and>
      set (map adj_symbol (fst (aq symbol start_date end_date))) \<subseteq> set (columns p4))"
proof (intro conjI impI)
  assume "snd (get_index_comp_df cal cq idx start_date end_date) = Inr p1"
  then show "columns p1 = group_keys (map comp_symbol (fst (cq idx start_date end_date)))"
    by (rule comp_columns)
next
  assume "get_index_weights_daily cal nxt wq idx start_date end_date = Some (printed, Inr p2)"
  from weights_daily_Some [OF this]
  show "\<exists>tds. visits nxt (last (get_trade_date_range cal start_date end_date))
                 (hd (get_trade_date_range cal start_date end_date)) tds \<and>
              columns p2 = group_keys (concat (map
                (\<lambda>td. map w_symbol (fst (wq (if idx = ''000300.SH'' then ''399300.SZ'' else idx) td))) tds))"
    unfolding weights_symbols by blast
next
  assume r: "snd (get_industry_daily cal iq symbol start_date end_date src_type level) = Inr p3"
  from industry_columns [OF r] show "columns p3 = sort (split_sep CHR '','' symbol)" ..
  from industry_columns [OF r] show "set (map ind_symbol (fst (iq symbol src_type level))) \<subseteq> set (columns p3)" ..
next
  assume r: "snd (get_adj_factor_daily cal aq symbol start_date end_date do_div) = Inr p4"
  from adj_columns [OF r] show "columns p4 = sort (split_sep CHR '','' symbol)" ..
  from adj_columns [OF r] show "set (map adj_symbol (fst (aq symbol start_date end_date))) \<subseteq> set (columns p4)" ..
qed

theorem panel_columns_witness:
  "snd (get_index_comp_df ex_cal ex_comp_query ''000300.SH'' 9 21) =
     Inr \<lparr>index = [9, 10, 11, 15, 19, 20, 21], cols = [(''A'', [0, 0, 1, 1, 1, 0, 0])]\<rparr> \<and>
   columns \<lparr>index = [9, 10, 11, 15, 19, 20, 21], cols = [(''A'', [0, 0, 1, 1, 1, 0, 0 :: int])]\<rparr> =
     group_keys (map comp_symbol (fst (ex_comp_query ''000300.SH'' 9 21))) \<and>
   get_index_weights_daily ex_w_cal ex_nxt ex_w_query ''000300.SH'' 20170929 20171101 =
     Some ([], Inr \<lparr>index = get_trade_date_range ex_w_cal 20170929 20171101,
                    cols = [(''A'', replicate 18 (Fin (3 / 5)) @ [Fin 0]),
                            (''B'', replicate 18 (Fin (2 / 5)) @ [Fin 0]),
                            (''C'', replicate 18 (Fin 0) @ [Fin 1])]\<rparr>) \<and>
   (\<exists>tds. visits ex_nxt (last (get_trade_date_range ex_w_cal 20170929 20171101))
              (hd (get_trade_date_range ex_w_cal 20170929 20171101)) tds \<and>
          [''A'', ''B'', ''C''] = group_keys (concat (map
             (\<lambda>td. map w_symbol (fst (ex_w_query ''399300.SZ'' td))) tds))) \<and>
   snd (get_industry_daily ex_ind_cal ex_ind_query ''B,A,C'' 20200101 20200131 ''SW'' 1) =
     Inr \<lparr>index = [20200105, 20200110, 20200112],
          cols = [(''A'', [''a'', ''a'', ''b'']), (''B'', [''x'', ''x'', ''x'']),
                  (''C'', [''nan'', ''nan'', ''nan''])]\<rparr> \<and>
   [''A'', ''B'', ''C''] = sort (split_sep CHR '','' ''B,A,C'') \<and>
   snd (get_adj_factor_daily ex_adj_cal ex_adj_query ''A,B,C'' 20170103 20170105 False) =
     Inr \<lparr>index = [20170103, 20170104, 20170105],
          cols = [(''A'', [Fin 1, Fin 1, Fin 2]), (''B'', [Fin 3, Fin 3, Fin 3]),
                  (''C'', [NaN, NaN, NaN])]\<rparr> \<and>
   set (map adj_symbol (fst (ex_adj_query ''A,B,C'' 20170103 20170105))) \<subseteq> set [''A'', ''B'', ''C'']"
proof -
  let ?p1 = "\<lparr>index = [9, 10, 11, 15, 19, 20, 21], cols = [(''A'', [0, 0, 1, 1, 1, 0, 0 :: int])]\<rparr>"
  let ?p2 = "\<lparr>index = get_trade_date_range ex_w_cal 20170929 20171101,
                    cols = [(''A'', replicate 18 (Fin (3 / 5)) @ [Fin 0]),
                            (''B'', replicate 18 (Fin (2 / 5)) @ [Fin 0]),
                            (''C'', replicate 18 (Fin 0) @ [Fin 1])]\<rparr>"
  let ?p3 = "\<lparr>index = [20200105, 20200110, 20200112],
          cols = [(''A'', [''a'', ''a'', ''b'']), (''B'', [''x'', ''x'', ''x'']),
                  (''C'', [''nan'', ''nan'', ''nan''])]\<rparr>"
  let ?p4 = "\<lparr>index = [20170103, 20170104, 20170105],
          cols = [(''A'', [Fin 1, Fin 1, Fin 2]), (''B'', [Fin 3, Fin 3, Fin 3]),
                  (''C'', [NaN, NaN, NaN])]\<rparr>"
  have r1: "snd (get_index_comp_df ex_cal ex_comp_query ''000300.SH'' 9 21) = Inr ?p1"
    by code_simp
  have r2: "get_index_weights_daily ex_w_cal ex_nxt ex_w_query ''000300.SH'' 20170929 20171101 =
     Some ([], Inr ?p2)"
    by code_simp
  have r3: "snd (get_industry_daily ex_ind_cal ex_ind_query ''B,A,C'' 20200101 20200131 ''SW'' 1) = Inr ?p3"
    by code_simp
  have r4: "snd (get_adj_factor_daily ex_adj_cal ex_adj_query ''A,B,C'' 20170103 20170105 False) = Inr ?p4"
    by code_simp
  from r1 panel_columns [where cal = ex_cal and cq = ex_comp_query and idx = "''000300.SH''"
      and start_date = 9 and end_date = 21 and ?p1.0 = ?p1]
  have c1: "columns ?p1 = group_keys (map comp_symbol (fst (ex_comp_query ''000300.SH'' 9 21)))"
    by blast
  from r2 panel_columns [where cal = ex_w_cal and nxt = ex_nxt and wq = ex_w_query
      and idx = "''000300.SH''" and start_date = 20170929 and end_date = 20171101
      and printed = "[]" and ?p2.0 = ?p2]
  have "\<exists>tds. visits ex_nxt (last (get_trade_date_range ex_w_cal 20170929 20171101))
              (hd (get_trade_date_range ex_w_cal 20170929 20171101)) tds \<and>
          columns ?p2 = group_keys (concat (map
             (\<lambda>td. map w_symbol (fst (ex_w_query
                (if ''000300.SH'' = ''000300.SH'' then ''399300.SZ'' else ''000300.SH'') td))) tds))"
    by blast
  then have c2: "\<exists>tds. visits ex_nxt (last (get_trade_date_range ex_w_cal 20170929 20171101))
              (hd (get_trade_date_range ex_w_cal 20170929 20171101)) tds \<and>
          [''A'', ''B'', ''C''] = group_keys (concat (map
             (\<lambda>td. map w_symbol (fst (ex_w_query ''399300.SZ'' td))) tds))"
    by (simp add: columns_def)
  from r3 panel_columns [where cal = ex_ind_cal and iq = ex_ind_query and symbol = "''B,A,C''"
      and start_date = 20200101 and end_date = 20200131 and src_type = "''SW''" and level = 1
      and ?p3.0 = ?p3]
  have "columns ?p3 = sort (split_sep CHR '','' ''B,A,C'')"
    by blast
  then have c3: "[''A'', ''B'', ''C''] = sort (split_sep CHR '','' ''B,A,C'')"
    by (simp add: columns_def)
  from r4 panel_columns [where cal = ex_adj_cal and aq = ex_adj_query and symbol = "''A,B,C''"
      and start_date = 20170103 and end_date = 20170105 and do_div = False and ?p4.0 = ?p4]
  have "set (map adj_symbol (fst (ex_adj_query ''A,B,C'' 20170103 20170105))) \<subseteq> set (columns ?p4)"
    by blast
  then have c4: "set (map adj_symbol (fst (ex_adj_query ''A,B,C'' 20170103 20170105))) \<subseteq> set [''A'', ''B'', ''C'']"
    by (simp add: columns_def)
  from r1 c1 r2 c2 r3 c3 r4 c4 show ?thesis by (intro conjI)
qed

text \<open>
  Against C3 as stated: \<open>C\<close> was requested and the fetch returned no record of it, yet
  \<open>C\<close> is a column of the adjustment-factor panel; the entity ids of the fetched rows are
  \<open>A\<close> and \<open>B\<close> only.
\<close>

theorem panel_columns_counterexample:
  "snd (get_adj_factor_daily ex_adj_cal ex_adj_query ''A,B,C'' 20170103 20170105 False) =
     Inr \<lparr>index = [20170103, 20170104, 20170105],
          cols = [(''A'', [Fin 1, Fin 1, Fin 2]), (''B'', [Fin 3, Fin 3, Fin 3]),
                  (''C'', [NaN, NaN, NaN])]\<rparr> \<and>
   columns \<lparr>index = [20170103, 20170104, 20170105],
          cols = [(''A'', [Fin 1, Fin 1, Fin 2]), (''B'', [Fin 3, Fin 3, Fin 3]),
                  (''C'', [NaN, NaN, NaN])]\<rparr> = [''A'', ''B'', ''C''] \<and>
   group_keys (map adj_symbol (fst (ex_adj_query ''A,B,C'' 20170103 20170105))) = [''A'', ''B'']"
  by code_simp

text \<open>
  C4, as the code has it. Each of the four operations prints a fetch status other than
  \<^verbatim>\<open>'0,'\<close> and does not return it: what it returns, a panel or an exception, is
  computed from the fetched rows alone and is the same whatever the status says. The
  first component of a result below is what was printed, the second what was returned.
\<close>

theorem status_printed_not_returned:
  "fst (get_index_comp_df cal cq idx start_date end_date) =
     (if snd (cq idx start_date end_date) \<noteq> ''0,'' then [snd (cq idx start_date end_date)] else []) \<and>
   (fst (cq' idx start_date end_date) = fst (cq idx start_date end_date) \<longrightarrow>
      snd (get_index_comp_df cal cq' idx start_date end_date) =
      snd (get_index_comp_df cal cq idx start_date end_date)) \<and>
   fst (get_adj_factor_daily cal aq symbol start_date end_date do_div) =
     (if snd (aq symbol start_date end_date) \<noteq> ''0,'' then [snd (aq symbol start_date end_date)] else []) \<and>
   (fst (aq' symbol start_date end_date) = fst (aq symbol start_date end_date) \<longrightarrow>
      snd (get_adj_factor_daily cal aq' symbol start_date end_date do_div) =
      snd (get_adj_factor_daily cal aq symbol start_date end_date do_div)) \<and>
   fst (get_industry_daily cal iq symbol start_date end_date src_type level) =
     (if (src_type = ''SW'' \<or> src_type = ''ZZ'') \<and> level \<in> {1, 2, 3, 4} \<and>
         snd (iq symbol src_type level) \<noteq> ''0,''
      then [snd (iq symbol src_type level)] else []) \<and>
   (fst (iq' symbol src_type level) = fst (iq symbol src_type level) \<longrightarrow>
      snd (get_industry_daily cal iq' symbol start_date end_date src_type level) =
      snd (get_industry_daily cal iq symbol start_date end_date src_type level)) \<and>
   (get_index_weights_daily cal nxt wq idx start_date end_date = Some (printed, r) \<longrightarrow>
      (get_trade_date_range cal start_date end_date = [] \<and> printed = []) \<or>
      (\<exists>tds. visits nxt (last (get_trade_date_range cal start_date end_date))
                 (hd (get_trade_date_range cal start_date end_date)) tds \<and>
              printed = concat (map (\<lambda>td. fst (get_index_weights wq idx td)) tds))) \<and>
   ((\<forall>i td. fst (wq' i td) = fst (wq i td)) \<longrightarrow>
      map_option snd (get_index_weights_daily cal nxt wq' idx start_date end_date) =
      map_option snd (get_index_weights_daily cal nxt wq idx start_date end_date))"
proof (intro conjI impI)
  show "fst (get_index_comp_df cal cq idx start_date end_date) =
     (if snd (cq idx start_date end_date) \<noteq> ''0,'' then [snd (cq idx start_date end_date)] else [])"
    by (simp add: get_index_comp_df_def u_get_index_comp_def split_beta Let_def)
next
  assume eq: "fst (cq' idx start_date end_date) = fst (cq idx start_date end_date)"
  show "snd (get_index_comp_df cal cq' idx start_date end_date) =
      snd (get_index_comp_df cal cq idx start_date end_date)"
    by (simp only: get_index_comp_df_def u_get_index_comp_def split_beta Let_def snd_conv eq)
next
  show "fst (get_adj_factor_daily cal aq symbol start_date end_date do_div) =
     (if snd (aq symbol start_date end_date) \<noteq> ''0,'' then [snd (aq symbol start_date end_date)] else [])"
    by (simp add: get_adj_factor_daily_def get_adj_factor_raw_def split_beta Let_def)
next
  assume eq: "fst (aq' symbol start_date end_date) = fst (aq symbol start_date end_date)"
  show "snd (get_adj_factor_daily cal aq' symbol start_date end_date do_div) =
      snd (get_adj_factor_daily cal aq symbol start_date end_date do_div)"
    by (simp only: get_adj_factor_daily_def get_adj_factor_raw_def split_beta Let_def snd_conv eq)
next
  show "fst (get_industry_daily cal iq symbol start_date end_date src_type level) =
     (if (src_type = ''SW'' \<or> src_type = ''ZZ'') \<and> level \<in> {1, 2, 3, 4} \<and>
         snd (iq symbol src_type level) \<noteq> ''0,''
      then [snd (iq symbol src_type level)] else [])"
    by (auto simp: get_industry_daily_def get_industry_raw_def split_beta Let_def)
next
  assume eq: "fst (iq' symbol src_type level) = fst (iq symbol src_type level)"
  have "snd (get_industry_raw iq' symbol src_type level) = snd (get_industry_raw iq symbol src_type level)"
    by (simp only: get_industry_raw_def split_beta Let_def if_distrib [of snd] snd_conv eq)
  then show "snd (get_industry_daily cal iq' symbol start_date end_date src_type level) =
      snd (get_industry_daily cal iq symbol start_date end_date src_type level)"
    by (cases "get_industry_raw iq' symbol src_type level"; cases "get_industry_raw iq symbol src_type level")
       (auto simp: get_industry_daily_def split: sum.splits)
next
  assume "get_index_weights_daily cal nxt wq idx start_date end_date = Some (printed, r)"
  then show "(get_trade_date_range cal start_date end_date = [] \<and> printed = []) \<or>
      (\<exists>tds. visits nxt (last (get_trade_date_range cal start_date end_date))
                 (hd (get_trade_date_range cal start_date end_date)) tds \<and>
              printed = concat (map (\<lambda>td. fst (get_index_weights wq idx td)) tds))"
    by (rule weights_daily_printed)
next
  assume "\<forall>i td. fst (wq' i td) = fst (wq i td)"
  then show "map_option snd (get_index_weights_daily cal nxt wq' idx start_date end_date) =
      map_option snd (get_index_weights_daily cal nxt wq idx start_date end_date)"
    by (rule weights_daily_same_rows)
qed


theorem status_printed_not_returned_witness:
  "fst (ex_failed_comp_query ''000300.SH'' 9 21) = fst (ex_comp_query ''000300.SH'' 9 21) \<and>
   snd (get_index_comp_df ex_cal ex_failed_comp_query ''000300.SH'' 9 21) =
     snd (get_index_comp_df ex_cal ex_comp_query ''000300.SH'' 9 21) \<and>
   fst (ex_failed_adj_query ''A,B,C'' 20170103 20170105) = fst (ex_adj_query ''A,B,C'' 20170103 20170105) \<and>
   snd (get_adj_factor_daily ex_adj_cal ex_failed_adj_query ''A,B,C'' 20170103 20170105 True) =
     snd (get_adj_factor_daily ex_adj_cal ex_adj_query ''A,B,C'' 20170103 20170105 True) \<and>
   fst (ex_failed_ind_query ''B,A,C'' ''SW'' 1) = fst (ex_ind_query ''B,A,C'' ''SW'' 1) \<and>
   snd (get_industry_daily ex_ind_cal ex_failed_ind_query ''B,A,C'' 20200101 20200131 ''SW'' 1) =
     snd (get_industry_daily ex_ind_cal ex_ind_query ''B,A,C'' 20200101 20200131 ''SW'' 1) \<and>
   (\<forall>i td. fst (ex_failed_w_query i td) = fst (ex_w_query i td)) \<and>
   map_option snd (get_index_weights_daily ex_w_cal ex_nxt ex_failed_w_query ''000300.SH'' 20170929 20171101) =
     map_option snd (get_index_weights_daily ex_w_cal ex_nxt ex_w_query ''000300.SH'' 20170929 20171101)"
proof -
  have h1: "fst (ex_failed_comp_query ''000300.SH'' 9 21) = fst (ex_comp_query ''000300.SH'' 9 21)"
    by (simp add: ex_failed_comp_query_def)
  have h2: "fst (ex_failed_adj_query ''A,B,C'' 20170103 20170105) = fst (ex_adj_query ''A,B,C'' 20170103 20170105)"
    by (simp add: ex_failed_adj_query_def)
  have h3: "fst (ex_failed_ind_query ''B,A,C'' ''SW'' 1) = fst (ex_ind_query ''B,A,C'' ''SW'' 1)"
    by (simp add: ex_failed_ind_query_def)
  have h4: "\<forall>i td. fst (ex_failed_w_query i td) = fst (ex_w_query i td)"
    by (simp add: ex_failed_w_query_def)
  note inst = status_printed_not_returned [where cq = ex_comp_query and cq' = ex_failed_comp_query
      and aq = ex_adj_query and aq' = ex_failed_adj_query
      and iq = ex_ind_query and iq' = ex_failed_ind_query
      and wq = ex_w_query and wq' = ex_failed_w_query]
  from h1 inst [where cal = ex_cal and idx = "''000300.SH''" and start_date = 9 and end_date = 21]
  have c1: "snd (get_index_comp_df ex_cal ex_failed_comp_query ''000300.SH'' 9 21) =
     snd (get_index_comp_df ex_cal ex_comp_query ''000300.SH'' 9 21)"
    by blast
  from h2 inst [where cal = ex_adj_cal and symbol = "''A,B,C''" and start_date = 20170103
      and end_date = 20170105 and do_div = True]
  have c2: "snd (get_adj_factor_daily ex_adj_cal ex_failed_adj_query ''A,B,C'' 20170103 20170105 True) =
     snd (get_adj_factor_daily ex_adj_cal ex_adj_query ''A,B,C'' 20170103 20170105 True)"
    by blast
  from h3 inst [where cal = ex_ind_cal and symbol = "''B,A,C''" and start_date = 20200101
      and end_date = 20200131 and src_type = "''SW''" and level = 1]
  have c3: "snd (get_industry_daily ex_ind_cal ex_failed_ind_query ''B,A,C'' 20200101 20200131 ''SW'' 1) =
     snd (get_industry_daily ex_ind_cal ex_ind_query ''B,A,C'' 20200101 20200131 ''SW'' 1)"
    by blast
  from h4 inst [where cal = ex_w_cal and nxt = ex_nxt and idx = "''000300.SH''"
      and start_date = 20170929 and end_date = 20171101]
  have c4: "map_option snd (get_index_weights_daily ex_w_cal ex_nxt ex_failed_w_query ''000300.SH'' 20170929 20171101) =
     map_option snd (get_index_weights_daily ex_w_cal ex_nxt ex_w_query ''000300.SH'' 20170929 20171101)"
    by blast
  from h1 c1 h2 c2 h3 c3 h4 c4 show ?thesis by (intro conjI)
qed

text \<open>
  Against C4 as stated: the fetch reports the status \<^verbatim>\<open>'-1,timeout'\<close>;
  \<^verbatim>\<open>get_index_comp_df\<close> prints it, builds the panel from the rows of the failed fetch and
  returns the panel alone.
\<close>

theorem status_printed_not_returned_counterexample:
  "get_index_comp_df ex_cal ex_failed_comp_query ''000300.SH'' 9 21 =
     ([''-1,timeout''],
      Inr \<lparr>index = [9, 10, 11, 15, 19, 20, 21], cols = [(''A'', [0, 0, 1, 1, 1, 0, 0])]\<rparr>)"
  by code_simp

section \<open>The snapshots of \<^verbatim>\<open>get_index_weights_daily\<close>\<close>

text \<open>
  C6 at a failing input. The snapshot of 20171002 (\<open>A\<close> 0.5, \<open>C\<close> 0.5) falls on a date
  that is no trading date. \<^verbatim>\<open>res.update(merge)\<close> places snapshots by row label, so this
  one is placed nowhere: on the eighteen trading dates from 20170929 to 20171031 the panel
  shows the weights of 20170929 (\<open>A\<close> 0.6, \<open>B\<close> 0.4, \<open>C\<close> 0), on those of October not the
  weights of the snapshot that superseded them.
\<close>

theorem index_weights_snapshot_lost:
  "get_index_weights_daily ex_w_cal ex_nxt ex_w_query ''000300.SH'' 20170929 20171101 =
     Some ([], Inr \<lparr>index = get_trade_date_range ex_w_cal 20170929 20171101,
                    cols = [(''A'', replicate 18 (Fin (3 / 5)) @ [Fin 0]),
                            (''B'', replicate 18 (Fin (2 / 5)) @ [Fin 0]),
                            (''C'', replicate 18 (Fin 0) @ [Fin 1])]\<rparr>) \<and>
   fst (ex_w_query ''399300.SZ'' 20171002) =
     [\<lparr>w_symbol = ''A'', weight = Fin (1 / 2)\<rparr>, \<lparr>w_symbol = ''C'', weight = Fin (1 / 2)\<rparr>] \<and>
   visits ex_nxt 20171101 20170929 [20170929, 20171002, 20171101]"
  by code_simp

end
